theory Spec2Isabelle
  imports Main "HOL-Library.Sublist"
begin

section \<open>Strings and JSON values\<close>

text \<open>
  JavaScript strings are modelled as \<^typ>\<open>string\<close>, read as sequences of code units
  below 256 (Latin-1). \<open>is_space\<close> is the white space of \<open>String.prototype.trim\<close> and of
  the regular expression class \<open>\s\<close> in that range.
\<close>

definition is_space :: "char \<Rightarrow> bool" where
  "is_space c = (c \<in> set [CHR 0x09, CHR 0x0A, CHR 0x0B, CHR 0x0C, CHR 0x0D, CHR '' '', CHR 0xA0])"

definition trim :: "string \<Rightarrow> string" where
  "trim s = rev (dropWhile is_space (rev (dropWhile is_space s)))"

definition upper_letters :: string where
  "upper_letters = ''ABCDEFGHIJKLMNOPQRSTUVWXYZ'' @
     [CHR 0xC0, CHR 0xC1, CHR 0xC2, CHR 0xC3, CHR 0xC4, CHR 0xC5, CHR 0xC6, CHR 0xC7,
      CHR 0xC8, CHR 0xC9, CHR 0xCA, CHR 0xCB, CHR 0xCC, CHR 0xCD, CHR 0xCE, CHR 0xCF,
      CHR 0xD0, CHR 0xD1, CHR 0xD2, CHR 0xD3, CHR 0xD4, CHR 0xD5, CHR 0xD6,
      CHR 0xD8, CHR 0xD9, CHR 0xDA, CHR 0xDB, CHR 0xDC, CHR 0xDD, CHR 0xDE]"

definition lower_letters :: string where
  "lower_letters = ''abcdefghijklmnopqrstuvwxyz'' @
     [CHR 0xE0, CHR 0xE1, CHR 0xE2, CHR 0xE3, CHR 0xE4, CHR 0xE5, CHR 0xE6, CHR 0xE7,
      CHR 0xE8, CHR 0xE9, CHR 0xEA, CHR 0xEB, CHR 0xEC, CHR 0xED, CHR 0xEE, CHR 0xEF,
      CHR 0xF0, CHR 0xF1, CHR 0xF2, CHR 0xF3, CHR 0xF4, CHR 0xF5, CHR 0xF6,
      CHR 0xF8, CHR 0xF9, CHR 0xFA, CHR 0xFB, CHR 0xFC, CHR 0xFD, CHR 0xFE]"

definition toLowerCase_char :: "char \<Rightarrow> char" where
  "toLowerCase_char c =
     (case map_of (zip upper_letters lower_letters) c of Some l \<Rightarrow> l | None \<Rightarrow> c)"

definition toLowerCase :: "string \<Rightarrow> string" where
  "toLowerCase s = map toLowerCase_char s"

text \<open>
  \<open>s.normalize("NFKD")\<close> takes a text out of Latin-1: a letter with a diacritic becomes
  the letter and a combining mark, the micro sign becomes U+03BC and a vulgar fraction its
  digits around U+2044. A normalized text is therefore a list of code units as integers, and
  \<open>units\<close> reads a string of the code as one. \<open>nfkd_table\<close> lists the characters below
  256 that have a decomposition, each with its full compatibility decomposition.
\<close>

definition units :: "string \<Rightarrow> int list" where
  "units s = map of_char s"

definition nfkd_table :: "(char \<times> int list) list" where
  "nfkd_table =
     [(CHR 0xA0, [0x20]), (CHR 0xA8, [0x20, 0x308]), (CHR 0xAA, [0x61]), (CHR 0xAF, [0x20, 0x304]),
      (CHR 0xB2, [0x32]), (CHR 0xB3, [0x33]), (CHR 0xB4, [0x20, 0x301]), (CHR 0xB5, [0x3BC]),
      (CHR 0xB8, [0x20, 0x327]), (CHR 0xB9, [0x31]), (CHR 0xBA, [0x6F]),
      (CHR 0xBC, [0x31, 0x2044, 0x34]), (CHR 0xBD, [0x31, 0x2044, 0x32]),
      (CHR 0xBE, [0x33, 0x2044, 0x34]),
      (CHR 0xC0, [0x41, 0x300]), (CHR 0xC1, [0x41, 0x301]), (CHR 0xC2, [0x41, 0x302]),
      (CHR 0xC3, [0x41, 0x303]), (CHR 0xC4, [0x41, 0x308]), (CHR 0xC5, [0x41, 0x30A]),
      (CHR 0xC7, [0x43, 0x327]),
      (CHR 0xC8, [0x45, 0x300]), (CHR 0xC9, [0x45, 0x301]), (CHR 0xCA, [0x45, 0x302]),
      (CHR 0xCB, [0x45, 0x308]),
      (CHR 0xCC, [0x49, 0x300]), (CHR 0xCD, [0x49, 0x301]), (CHR 0xCE, [0x49, 0x302]),
      (CHR 0xCF, [0x49, 0x308]),
      (CHR 0xD1, [0x4E, 0x303]),
      (CHR 0xD2, [0x4F, 0x300]), (CHR 0xD3, [0x4F, 0x301]), (CHR 0xD4, [0x4F, 0x302]),
      (CHR 0xD5, [0x4F, 0x303]), (CHR 0xD6, [0x4F, 0x308]),
      (CHR 0xD9, [0x55, 0x300]), (CHR 0xDA, [0x55, 0x301]), (CHR 0xDB, [0x55, 0x302]),
      (CHR 0xDC, [0x55, 0x308]),
      (CHR 0xDD, [0x59, 0x301]),
      (CHR 0xE0, [0x61, 0x300]), (CHR 0xE1, [0x61, 0x301]), (CHR 0xE2, [0x61, 0x302]),
      (CHR 0xE3, [0x61, 0x303]), (CHR 0xE4, [0x61, 0x308]), (CHR 0xE5, [0x61, 0x30A]),
      (CHR 0xE7, [0x63, 0x327]),
      (CHR 0xE8, [0x65, 0x300]), (CHR 0xE9, [0x65, 0x301]), (CHR 0xEA, [0x65, 0x302]),
      (CHR 0xEB, [0x65, 0x308]),
      (CHR 0xEC, [0x69, 0x300]), (CHR 0xED, [0x69, 0x301]), (CHR 0xEE, [0x69, 0x302]),
      (CHR 0xEF, [0x69, 0x308]),
      (CHR 0xF1, [0x6E, 0x303]),
      (CHR 0xF2, [0x6F, 0x300]), (CHR 0xF3, [0x6F, 0x301]), (CHR 0xF4, [0x6F, 0x302]),
      (CHR 0xF5, [0x6F, 0x303]), (CHR 0xF6, [0x6F, 0x308]),
      (CHR 0xF9, [0x75, 0x300]), (CHR 0xFA, [0x75, 0x301]), (CHR 0xFB, [0x75, 0x302]),
      (CHR 0xFC, [0x75, 0x308]),
      (CHR 0xFD, [0x79, 0x301]), (CHR 0xFF, [0x79, 0x308])]"

definition normalize_NFKD :: "string \<Rightarrow> int list" where
  "normalize_NFKD s =
     concat (map (\<lambda>c. case map_of nfkd_table c of Some d \<Rightarrow> d | None \<Rightarrow> [of_char c]) s)"

text \<open>\<open>s.normalize("NFKD").replace(/[\u0300-\u036f]/g, "")\<close>.\<close>

definition strip_diacritics :: "string \<Rightarrow> int list" where
  "strip_diacritics s = filter (\<lambda>n. \<not> (0x300 \<le> n \<and> n \<le> 0x36F)) (normalize_NFKD s)"

text \<open>
  The class \<open>\s\<close> on a code unit, and \<open>s.replace(/\s+/g, " ")\<close>; the flag says whether the
  previous code unit was white space.
\<close>

definition is_space_unit :: "int \<Rightarrow> bool" where
  "is_space_unit n =
     (n \<in> set [0x09, 0x0A, 0x0B, 0x0C, 0x0D, 0x20, 0xA0, 0x1680, 0x2028, 0x2029, 0x202F, 0x205F,
               0x3000, 0xFEFF]
      \<or> (0x2000 \<le> n \<and> n \<le> 0x200A))"

fun collapse_spaces :: "bool \<Rightarrow> int list \<Rightarrow> int list" where
  "collapse_spaces in_run [] = []"
| "collapse_spaces in_run (c # cs) =
     (if is_space_unit c
      then (if in_run then collapse_spaces True cs else 0x20 # collapse_spaces True cs)
      else c # collapse_spaces False cs)"

text \<open>\<open>s.includes(sub)\<close>.\<close>

fun str_includes :: "int list \<Rightarrow> int list \<Rightarrow> bool" where
  "str_includes [] sub = (sub = [])"
| "str_includes (c # cs) sub = (prefix sub (c # cs) \<or> str_includes cs sub)"

text \<open>
  \<open>/\bw\b/.test(s)\<close> for a word \<open>w\<close> of word characters: \<open>w\<close> occurs in \<open>s\<close> with no word
  character right before it and none right after it. The class \<open>\w\<close> is the digits, the
  letters A to Z and a to z, and the underscore.
\<close>

definition is_word_char :: "int \<Rightarrow> bool" where
  "is_word_char n =
     ((0x30 \<le> n \<and> n \<le> 0x39) \<or> (0x41 \<le> n \<and> n \<le> 0x5A) \<or> n = 0x5F \<or> (0x61 \<le> n \<and> n \<le> 0x7A))"

fun word_search :: "int list \<Rightarrow> bool \<Rightarrow> int list \<Rightarrow> bool" where
  "word_search w prev_is_word [] = False"
| "word_search w prev_is_word (c # cs) =
     ((\<not> prev_is_word \<and> prefix w (c # cs) \<and>
        (case drop (length w) (c # cs) of [] \<Rightarrow> True | d # _ \<Rightarrow> \<not> is_word_char d))
      \<or> word_search w (is_word_char c) cs)"

definition has_word :: "string \<Rightarrow> int list \<Rightarrow> bool" where
  "has_word w s = word_search (units w) False s"

text \<open>
  A parsed JSON value, or a JavaScript value of unknown type. Numbers are kept as integers:
  the code below only asks whether a number is zero.
\<close>

datatype json =
    JUndefined
  | JNull
  | JBool bool
  | JNum int
  | JStr string
  | JArr "json list"
  | JObj "(string \<times> json) list"

fun truthy :: "json \<Rightarrow> bool" where
  "truthy JUndefined = False"
| "truthy JNull = False"
| "truthy (JBool b) = b"
| "truthy (JNum n) = (n \<noteq> 0)"
| "truthy (JStr s) = (s \<noteq> [])"
| "truthy (JArr vs) = True"
| "truthy (JObj kvs) = True"

text \<open>\<open>obj?.key\<close>.\<close>

fun get_field :: "json \<Rightarrow> string \<Rightarrow> json" where
  "get_field (JObj kvs) k = (case map_of kvs k of Some v \<Rightarrow> v | None \<Rightarrow> JUndefined)"
| "get_field v k = JUndefined"

text \<open>\<open>a ?? b\<close>.\<close>

fun nullish_or :: "json \<Rightarrow> json \<Rightarrow> json" where
  "nullish_or JUndefined b = b"
| "nullish_or JNull b = b"
| "nullish_or a b = a"

section \<open>Token codec\<close>

text \<open>
  The canonical token shape
  \<open>/^[0-9a-f]{8}-[0-9a-f]{4}-[1-8][0-9a-f]{3}-[89ab][0-9a-f]{3}-[0-9a-f]{12}$/i\<close>
  of the burn, get and qr routes: one character class per position.
\<close>

definition is_hex :: "char \<Rightarrow> bool" where
  "is_hex c = (c \<in> set ''0123456789abcdefABCDEF'')"

definition is_dash :: "char \<Rightarrow> bool" where
  "is_dash c = (c = CHR ''-'')"

definition is_version :: "char \<Rightarrow> bool" where
  "is_version c = (c \<in> set ''12345678'')"

definition is_variant :: "char \<Rightarrow> bool" where
  "is_variant c = (c \<in> set ''89abAB'')"

definition uuid_shape :: "(char \<Rightarrow> bool) list" where
  "uuid_shape =
     replicate 8 is_hex @ [is_dash] @ replicate 4 is_hex @ [is_dash] @
     [is_version] @ replicate 3 is_hex @ [is_dash] @
     [is_variant] @ replicate 3 is_hex @ [is_dash] @ replicate 12 is_hex"

definition uuid_test :: "string \<Rightarrow> bool" where
  "uuid_test s = list_all2 (\<lambda>p c. p c) uuid_shape s"

section \<open>Ticket type resolver\<close>

text \<open>\<open>normalizeTicketTypeKey\<close>, \<open>isFoodAndBallTicketType\<close>, \<open>isJustBallTicketType\<close> of the issue route.\<close>

definition normalizeTicketTypeKey :: "string \<Rightarrow> int list" where
  "normalizeTicketTypeKey v = collapse_spaces False (strip_diacritics (toLowerCase (trim v)))"

definition isFoodAndBallTicketType :: "int list \<Rightarrow> bool" where
  "isFoodAndBallTicketType normalizedKey =
     (let hasBall = has_word ''ball'' normalizedKey;
          hasFood = (has_word ''matur'' normalizedKey \<or> has_word ''mat'' normalizedKey)
      in hasBall \<and> hasFood)"

definition isJustBallTicketType :: "int list \<Rightarrow> bool" where
  "isJustBallTicketType normalizedKey =
     (if normalizedKey = units ''ball'' then True
      else has_word ''bara'' normalizedKey \<and> has_word ''ball'' normalizedKey)"

text \<open>
  The choice of the time in \<open>formatSubjectStart\<close>: food and ball first, then ball only, then
  the time formatted from the event's start (\<open>formatTimeFromStartsAt\<close>, given here).
\<close>

definition subject_time :: "string \<Rightarrow> string \<Rightarrow> string" where
  "subject_time ticketType timeFromStartsAt =
     (let key = normalizeTicketTypeKey ticketType
      in if isFoodAndBallTicketType key then ''18:30''
         else if isJustBallTicketType key then ''21:00''
         else timeFromStartsAt)"

text \<open>\<open>stripDiacriticsLower\<close> and the type choice in \<open>main\<close> of send-paid-link-tickets.mjs.\<close>

definition stripDiacriticsLower :: "string \<Rightarrow> int list" where
  "stripDiacriticsLower s = strip_diacritics (toLowerCase (trim s))"

definition wantedTypeName :: "string \<Rightarrow> string" where
  "wantedTypeName ticketChoice =
     (let ticketChoiceKey = stripDiacriticsLower (trim ticketChoice)
      in if str_includes ticketChoiceKey (units ''mat'') \<and> str_includes ticketChoiceKey (units ''ball'')
         then ''Matur + ball''
         else if str_includes ticketChoiceKey (units ''ball'') then ''Bara ball''
         else [])"

section \<open>Issuance options\<close>

fun toBooleanOrUndefined :: "json \<Rightarrow> bool option" where
  "toBooleanOrUndefined JUndefined = None"
| "toBooleanOrUndefined JNull = None"
| "toBooleanOrUndefined (JBool b) = Some b"
| "toBooleanOrUndefined (JNum n) = Some (n \<noteq> 0)"
| "toBooleanOrUndefined (JStr v) =
     (let s = toLowerCase (trim v)
      in if s = [] then None
         else if s \<in> set [''1'', ''true'', ''yes'', ''y'', ''on''] then Some True
         else if s \<in> set [''0'', ''false'', ''no'', ''n'', ''off''] then Some False
         else None)"
| "toBooleanOrUndefined (JArr vs) = None"
| "toBooleanOrUndefined (JObj kvs) = None"

section \<open>Bulk issuance pipeline (send-paid-link-tickets.mjs)\<close>

subsection \<open>Retried remote calls\<close>

text \<open>
  One attempt of \<open>fetch\<close> either throws (a network-level failure, with the rendered error) or
  gives a response: its status and its body parsed as JSON (\<open>{}\<close> when the body does not parse).
\<close>

datatype fetch_outcome = Response nat json | NetworkError string

record fetch_result =
  fr_ok :: bool
  fr_status :: nat
  fr_json :: json

datatype retry_event = Attempt nat | Sleep nat

record retry_opts =
  maxAttempts :: "nat option"
  baseDelayMs :: "nat option"

definition res_ok :: "nat \<Rightarrow> bool" where
  "res_ok status = (200 \<le> status \<and> status \<le> 299)"

text \<open>The value returned after the loop: \<open>lastErr?.message ?? String(lastErr)\<close>.\<close>

definition gave_up :: "string option \<Rightarrow> fetch_result" where
  "gave_up lastErr =
     \<lparr>fr_ok = False, fr_status = 0,
      fr_json = JObj [(''ok'', JBool False),
                      (''error'', JStr (case lastErr of Some m \<Rightarrow> m | None \<Rightarrow> ''null''))]\<rparr>"

text \<open>
  The \<open>for\<close> loop of \<open>fetchJsonWithRetry\<close>, from attempt \<open>attempt\<close> on. \<open>fetch k\<close> is the
  outcome of the \<open>k\<close>-th attempt. The result comes with the attempts made and the delays slept.
\<close>

function fetchJsonWithRetry_loop ::
  "(nat \<Rightarrow> fetch_outcome) \<Rightarrow> nat \<Rightarrow> nat \<Rightarrow> nat \<Rightarrow> string option \<Rightarrow> fetch_result \<times> retry_event list"
where
  "fetchJsonWithRetry_loop fetch maxA baseD attempt lastErr =
     (if attempt \<le> maxA then
        (case fetch attempt of
           Response status js \<Rightarrow>
             if res_ok status
             then (\<lparr>fr_ok = True, fr_status = status, fr_json = js\<rparr>, [Attempt attempt])
             else if \<not> (status = 429 \<or> status \<ge> 500) \<or> attempt = maxA
             then (\<lparr>fr_ok = False, fr_status = status, fr_json = js\<rparr>, [Attempt attempt])
             else
               (case fetchJsonWithRetry_loop fetch maxA baseD (attempt + 1) lastErr of
                  (r, evs) \<Rightarrow> (r, Attempt attempt # Sleep (baseD * 2 ^ (attempt - 1)) # evs))
         | NetworkError e \<Rightarrow>
             if attempt = maxA then (gave_up (Some e), [Attempt attempt])
             else
               (case fetchJsonWithRetry_loop fetch maxA baseD (attempt + 1) (Some e) of
                  (r, evs) \<Rightarrow> (r, Attempt attempt # Sleep (baseD * 2 ^ (attempt - 1)) # evs)))
      else (gave_up lastErr, []))"
  by pat_completeness auto
termination
  by (relation "measure (\<lambda>(fetch, maxA, baseD, attempt, lastErr). Suc maxA - attempt)") auto

declare fetchJsonWithRetry_loop.simps [simp del]

definition fetchJsonWithRetry :: "(nat \<Rightarrow> fetch_outcome) \<Rightarrow> retry_opts \<Rightarrow> fetch_result \<times> retry_event list" where
  "fetchJsonWithRetry fetch opts =
     (let maxA = (case maxAttempts opts of Some n \<Rightarrow> n | None \<Rightarrow> 5);
          baseD = (case baseDelayMs opts of Some n \<Rightarrow> n | None \<Rightarrow> 800)
      in fetchJsonWithRetry_loop fetch maxA baseD 1 None)"

subsection \<open>Rows of the source file\<close>

definition normalizeEmail :: "string \<Rightarrow> string" where
  "normalizeEmail s = toLowerCase (trim s)"

definition isYesIcelandic :: "string \<Rightarrow> bool" where
  "isYesIcelandic s =
     (let v = stripDiacriticsLower s
      in v = units ''ja'' \<or> v = units [CHR ''j'', CHR 0xE1] \<or> v = units ''ja,'')"

definition is_line_terminator :: "char \<Rightarrow> bool" where
  "is_line_terminator c = (c = CHR 0x0A \<or> c = CHR 0x0D)"

text \<open>
  \<open>/.+@.+\..+/.test(v)\<close>: somewhere in \<open>v\<close> a character, an at sign, one character or more,
  a dot and one more character, none of them a line terminator. \<open>email_rest\<close> matches
  \<open>.+\..+\<close> at the start of its argument.
\<close>

fun email_rest :: "bool \<Rightarrow> string \<Rightarrow> bool" where
  "email_rest seen [] = False"
| "email_rest seen (c # cs) =
     ((seen \<and> c = CHR ''.'' \<and> (case cs of [] \<Rightarrow> False | d # _ \<Rightarrow> \<not> is_line_terminator d))
      \<or> (\<not> is_line_terminator c \<and> email_rest True cs))"

fun email_search :: "char option \<Rightarrow> string \<Rightarrow> bool" where
  "email_search prev [] = False"
| "email_search prev (c # cs) =
     ((c = CHR ''@'' \<and> (case prev of None \<Rightarrow> False | Some p \<Rightarrow> \<not> is_line_terminator p)
         \<and> email_rest False cs)
      \<or> email_search (Some c) cs)"

definition isProbablyEmail :: "string \<Rightarrow> bool" where
  "isProbablyEmail s = email_search None (trim s)"

text \<open>
  A data line of the source file after \<open>parseCsvLine\<close>: the four columns \<open>main\<close> reads,
  each \<open>cols[idx] ?? ""\<close>.
\<close>

record sheet_row =
  emailRaw :: string
  paidRaw :: string
  nameRaw :: string
  typeRaw :: string

record paid_row =
  r_email :: string
  r_name :: "string option"
  r_wantedTypeName :: string
  r_ticketTypeId :: string

text \<open>
  \<open>typeIdByName\<close>, built from the rows of the types endpoint (name and id): a later row
  replaces an earlier one with the same key.
\<close>

definition typeIdByName :: "(string \<times> string) list \<Rightarrow> int list \<rightharpoonup> string" where
  "typeIdByName typesRows =
     fold (\<lambda>(name, tid) m. let nm = trim name
                             in if nm \<noteq> [] \<and> tid \<noteq> [] then m(stripDiacriticsLower nm \<mapsto> tid) else m)
          typesRows Map.empty"

text \<open>The body of the loop over the data lines: the row pushed to \<open>paidRows\<close>, if any.\<close>

definition paidRow :: "string list \<Rightarrow> (string \<times> string) list \<Rightarrow> sheet_row \<Rightarrow> paid_row option" where
  "paidRow skip typesRows cols =
     (if \<not> isYesIcelandic (paidRaw cols) then None
      else
        let email = normalizeEmail (emailRaw cols)
        in if email = [] \<or> \<not> isProbablyEmail email then None
           else if email \<in> set skip then None
           else
             let fullName = trim (nameRaw cols);
                 wanted = wantedTypeName (typeRaw cols)
             in if wanted = [] then None
                else (case typeIdByName typesRows (stripDiacriticsLower wanted) of
                        None \<Rightarrow> None
                      | Some wantedId \<Rightarrow>
                          if wantedId = [] then None
                          else Some \<lparr>r_email = email,
                                     r_name = (if fullName = [] then None else Some fullName),
                                     r_wantedTypeName = wanted,
                                     r_ticketTypeId = wantedId\<rparr>))"

definition paidRows :: "string list \<Rightarrow> (string \<times> string) list \<Rightarrow> sheet_row list \<Rightarrow> paid_row list" where
  "paidRows skip typesRows lines = List.map_filter (paidRow skip typesRows) lines"

text \<open>Dedupe by email, keeping the first occurrence.\<close>

fun dedupe :: "string list \<Rightarrow> paid_row list \<Rightarrow> paid_row list" where
  "dedupe seen [] = []"
| "dedupe seen (r # rs) =
     (if r_email r \<in> set seen then dedupe seen rs else r # dedupe (r_email r # seen) rs)"

subsection \<open>The ledger and the issue loop\<close>

text \<open>
  A line of the JSONL log as \<open>appendJsonl\<close> writes it (the \<open>startedAt\<close> clock reading is left
  out). Lines that do not parse are dropped by \<open>readJsonlSet\<close> and do not appear here.
\<close>

record ledger_entry =
  le_ok :: bool
  le_email :: string
  le_name :: "string option"
  le_ticketType :: string
  le_status :: "nat option"
  le_error :: json
  le_ticketId :: json
  le_ticketUrl :: json
  le_emailResult :: json

definition readJsonlSet :: "ledger_entry list \<Rightarrow> string set" where
  "readJsonlSet ledger =
     set (map (\<lambda>obj. normalizeEmail (le_email obj)) (filter (\<lambda>obj. le_ok obj \<and> le_email obj \<noteq> []) ledger))"

definition appendJsonl :: "ledger_entry list \<Rightarrow> ledger_entry \<Rightarrow> ledger_entry list" where
  "appendJsonl ledger obj = ledger @ [obj]"

definition pending :: "ledger_entry list \<Rightarrow> paid_row list \<Rightarrow> paid_row list" where
  "pending ledger deduped = filter (\<lambda>r. r_email r \<notin> readJsonlSet ledger) deduped"

datatype pipeline_event = IssueCall string "retry_event list" | Pause nat

definition failure_entry :: "paid_row \<Rightarrow> fetch_result \<Rightarrow> ledger_entry" where
  "failure_entry row res =
     \<lparr>le_ok = False, le_email = r_email row, le_name = r_name row,
      le_ticketType = r_wantedTypeName row, le_status = Some (fr_status res),
      le_error = nullish_or (get_field (fr_json res) ''error'') (fr_json res),
      le_ticketId = JUndefined, le_ticketUrl = JUndefined, le_emailResult = JUndefined\<rparr>"

definition success_entry :: "paid_row \<Rightarrow> fetch_result \<Rightarrow> ledger_entry" where
  "success_entry row res =
     \<lparr>le_ok = True, le_email = r_email row, le_name = r_name row,
      le_ticketType = r_wantedTypeName row, le_status = None, le_error = JUndefined,
      le_ticketId = get_field (fr_json res) ''ticketId'',
      le_ticketUrl = get_field (fr_json res) ''ticketUrl'',
      le_emailResult = get_field (fr_json res) ''email''\<rparr>"

definition issue_failed :: "fetch_result \<Rightarrow> bool" where
  "issue_failed res = (\<not> fr_ok res \<or> \<not> truthy (get_field (fr_json res) ''ok''))"

text \<open>
  The loop over \<open>pending.slice(0, limit)\<close>. \<open>remote row k\<close> is the outcome of the \<open>k\<close>-th
  attempt to post \<open>row\<close> to the issue endpoint.
\<close>

fun issue_loop ::
  "(paid_row \<Rightarrow> nat \<Rightarrow> fetch_outcome) \<Rightarrow> nat \<Rightarrow> paid_row list \<Rightarrow> ledger_entry list
     \<Rightarrow> ledger_entry list \<times> pipeline_event list"
where
  "issue_loop remote delayMs [] ledger = (ledger, [])"
| "issue_loop remote delayMs (row # rows) ledger =
     (case fetchJsonWithRetry (remote row) \<lparr>maxAttempts = Some 6, baseDelayMs = Some 800\<rparr> of
        (res, evs) \<Rightarrow>
          if issue_failed res
          then (case issue_loop remote delayMs rows (appendJsonl ledger (failure_entry row res)) of
                  (l, tr) \<Rightarrow> (l, IssueCall (r_email row) evs # Pause (max 500 delayMs) # tr))
          else (case issue_loop remote delayMs rows (appendJsonl ledger (success_entry row res)) of
                  (l, tr) \<Rightarrow> (l, IssueCall (r_email row) evs # Pause (max 0 delayMs) # tr)))"

record pipeline_args =
  arg_dryRun :: bool
  arg_max :: nat
  arg_delayMs :: nat
  arg_skip :: "string list"

definition skipDefault :: "string list" where
  "skipDefault = map normalizeEmail [''ros30@hi.is'', ''hfd2@hi.is'', ''ilv3@hi.is'', ''emj38@hi.is'', ''eto5@hi.is'']"

definition eligible :: "pipeline_args \<Rightarrow> (string \<times> string) list \<Rightarrow> sheet_row list \<Rightarrow> paid_row list" where
  "eligible args typesRows lines =
     dedupe [] (paidRows (skipDefault @ map normalizeEmail (arg_skip args)) typesRows lines)"

text \<open>
  \<open>main\<close> from the parsed lines on: the ledger it leaves and the calls it makes.
  \<open>arg_max = 0\<close> stands for every \<open>--max\<close> that is not a positive number.
\<close>

definition pipeline_main ::
  "pipeline_args \<Rightarrow> (string \<times> string) list \<Rightarrow> (paid_row \<Rightarrow> nat \<Rightarrow> fetch_outcome) \<Rightarrow> sheet_row list
     \<Rightarrow> ledger_entry list \<Rightarrow> ledger_entry list \<times> pipeline_event list"
where
  "pipeline_main args typesRows remote lines ledger =
     (let deduped = eligible args typesRows lines;
          pend = pending ledger deduped
      in if arg_dryRun args then (ledger, [])
         else
           let limit = (if arg_max args > 0 then arg_max args else length pend)
           in issue_loop remote (arg_delayMs args) (take limit pend) ledger)"

section \<open>The store\<close>

text \<open>
  The tables the routes read and write, each a list of rows with the columns the queries
  name. Time stamps are natural numbers. The schema is not part of the sources: that ids are
  unique and that a ticket type's event exists are hypotheses of the theorems that need them.
\<close>

record ticket =
  t_id :: string
  t_ticket_type_id :: string
  t_email :: string
  t_name :: "string option"
  t_used :: bool
  t_used_at :: "nat option"
  t_used_by_scanner_key_id :: "string option"
  t_issued_at :: nat

record ticket_type =
  tt_id :: string
  tt_event_id :: string
  tt_name :: string
  tt_price_isk :: nat

record event =
  e_id :: string
  e_name :: string
  e_starts_at :: "nat option"
  e_ends_at :: "nat option"
  e_venue :: "string option"

record scanner_key =
  sk_id :: string
  sk_key_hash :: string
  sk_event_id :: string
  sk_active :: bool
  sk_expires_at :: "nat option"
  sk_label :: "string option"

record store =
  tickets :: "ticket list"
  ticket_types :: "ticket_type list"
  events :: "event list"
  scanner_keys :: "scanner_key list"

text \<open>The statements sent to the store, in the order they are sent.\<close>

datatype sql =
    SelectScannerKey string
  | UpdateTicketUsed string string string
  | SelectTicketRow string string
  | SelectTicket string
  | SelectTicketType string
  | InsertTicket string string "string option"
  | UpdateTicketsBurn "string list"

text \<open>The row of the ticket joined with its type, its event and the key that scanned it.\<close>

record ticket_row =
  row_id :: string
  row_email :: string
  row_name :: "string option"
  row_used :: bool
  row_used_at :: "nat option"
  row_issued_at :: nat
  row_used_by_scanner_key_id :: "string option"
  row_ticket_type :: string
  row_price_isk :: nat
  row_event_name :: string
  row_starts_at :: "nat option"
  row_ends_at :: "nat option"
  row_venue :: "string option"
  row_scanned_by :: "string option"

definition scanned_by :: "store \<Rightarrow> ticket \<Rightarrow> string option" where
  "scanned_by db t =
     (case t_used_by_scanner_key_id t of
        None \<Rightarrow> None
      | Some k \<Rightarrow> (case find (\<lambda>sk. sk_id sk = k) (scanner_keys db) of
                    None \<Rightarrow> None
                  | Some sk \<Rightarrow> sk_label sk))"

definition joined_row :: "store \<Rightarrow> ticket \<Rightarrow> ticket_type \<Rightarrow> event \<Rightarrow> ticket_row" where
  "joined_row db t tt e =
     \<lparr>row_id = t_id t, row_email = t_email t, row_name = t_name t, row_used = t_used t,
      row_used_at = t_used_at t, row_issued_at = t_issued_at t,
      row_used_by_scanner_key_id = t_used_by_scanner_key_id t,
      row_ticket_type = tt_name tt, row_price_isk = tt_price_isk tt,
      row_event_name = e_name e, row_starts_at = e_starts_at e, row_ends_at = e_ends_at e,
      row_venue = e_venue e, row_scanned_by = scanned_by db t\<rparr>"

text \<open>
  \<open>from tickets t join ticket_types tt on tt.id = t.ticket_type_id
  join events e on e.id = tt.event_id\<close>
\<close>

definition tickets_joined :: "store \<Rightarrow> (ticket \<times> ticket_type \<times> event) list" where
  "tickets_joined db =
     concat (map (\<lambda>t.
       concat (map (\<lambda>tt.
         map (\<lambda>e. (t, tt, e)) (filter (\<lambda>e. e_id e = tt_event_id tt) (events db)))
         (filter (\<lambda>tt. tt_id tt = t_ticket_type_id t) (ticket_types db))))
       (tickets db))"

text \<open>The scanner key query of the validate route: active, not expired, \<open>limit 1\<close>.\<close>

definition select_scanner_key :: "store \<Rightarrow> string \<Rightarrow> nat \<Rightarrow> scanner_key option" where
  "select_scanner_key db tokenHash now =
     find (\<lambda>sk. sk_key_hash sk = tokenHash \<and> sk_active sk \<and>
                 (case sk_expires_at sk of None \<Rightarrow> True | Some x \<Rightarrow> x > now))
          (scanner_keys db)"

text \<open>\<open>loadTicketRow\<close>: the joined row of ticket \<open>$1\<close> within event \<open>$2\<close>, or null.\<close>

definition loadTicketRow :: "store \<Rightarrow> string \<Rightarrow> string \<Rightarrow> ticket_row option" where
  "loadTicketRow db ticketId scannerEventId =
     (case filter (\<lambda>(t, tt, e). t_id t = ticketId \<and> tt_event_id tt = scannerEventId) (tickets_joined db) of
        [] \<Rightarrow> None
      | (t, tt, e) # _ \<Rightarrow> Some (joined_row db t tt e))"

text \<open>
  The conditional update of the validate route: the rows it changes are the unused tickets
  with id \<open>$1\<close> whose type is a type of event \<open>$2\<close>.
\<close>

definition type_in_event :: "store \<Rightarrow> string \<Rightarrow> string \<Rightarrow> bool" where
  "type_in_event db ticketTypeId eventId =
     list_ex (\<lambda>tt. ticketTypeId = tt_id tt \<and> tt_event_id tt = eventId) (ticket_types db)"

definition redeemable :: "store \<Rightarrow> string \<Rightarrow> string \<Rightarrow> ticket \<Rightarrow> bool" where
  "redeemable db ticketId scannerEventId t =
     (t_id t = ticketId \<and> t_used t = False \<and> type_in_event db (t_ticket_type_id t) scannerEventId)"

definition redeemed :: "string \<Rightarrow> nat \<Rightarrow> ticket \<Rightarrow> ticket" where
  "redeemed scannerKeyId now t =
     t\<lparr>t_used := True, t_used_at := Some now, t_used_by_scanner_key_id := Some scannerKeyId\<rparr>"

definition update_ticket_used :: "store \<Rightarrow> string \<Rightarrow> string \<Rightarrow> string \<Rightarrow> nat \<Rightarrow> store \<times> nat" where
  "update_ticket_used db ticketId scannerEventId scannerKeyId now =
     (db\<lparr>tickets :=
          map (\<lambda>t. if redeemable db ticketId scannerEventId t then redeemed scannerKeyId now t else t)
              (tickets db)\<rparr>,
      length (filter (redeemable db ticketId scannerEventId) (tickets db)))"

text \<open>The update of the burn route, with the rows it returns.\<close>

definition burned :: "nat \<Rightarrow> ticket \<Rightarrow> ticket" where
  "burned now t = t\<lparr>t_used := True, t_used_at := Some now, t_used_by_scanner_key_id := None\<rparr>"

definition update_tickets_burn :: "store \<Rightarrow> string list \<Rightarrow> nat \<Rightarrow> store \<times> ticket list" where
  "update_tickets_burn db ids now =
     (db\<lparr>tickets := map (\<lambda>t. if t_id t \<in> set ids then burned now t else t) (tickets db)\<rparr>,
      map (burned now) (filter (\<lambda>t. t_id t \<in> set ids) (tickets db)))"

text \<open>
  Modelled from the spec: the column defaults of the tickets table, whose declaration is
  not part of the sources. A ticket starts unused, with no \<open>used_at\<close> and no
  \<open>used_by_key_id\<close>; \<open>issued_at\<close> is set at creation; the id is generated by the store
  (\<open>new_id\<close>).
\<close>

definition insert_ticket :: "store \<Rightarrow> string \<Rightarrow> nat \<Rightarrow> string \<Rightarrow> string \<Rightarrow> string option \<Rightarrow> store \<times> ticket" where
  "insert_ticket db new_id now ticketTypeId email name =
     (let t = \<lparr>t_id = new_id, t_ticket_type_id = ticketTypeId, t_email = email, t_name = name,
                t_used = False, t_used_at = None, t_used_by_scanner_key_id = None,
                t_issued_at = now\<rparr>
      in (db\<lparr>tickets := tickets db @ [t]\<rparr>, t))"

section \<open>Routes\<close>

text \<open>
  \<open>auth.match(/^Bearer\s+(.+)$/i)\<close> followed by \<open>m?.[1]?.trim() || null\<close>: the word, white
  space, and a rest with no line terminator; the token is the trimmed rest, if not empty.
\<close>

definition bearer_token :: "string \<Rightarrow> string option" where
  "bearer_token auth =
     (if toLowerCase (take 6 auth) = ''bearer'' \<and> (case drop 6 auth of [] \<Rightarrow> False | c # _ \<Rightarrow> is_space c)
      then (let rest = dropWhile is_space (drop 6 auth)
            in if rest = [] \<or> list_ex is_line_terminator rest then None else Some (trim rest))
      else None)"

text \<open>
  A store error surfaces as the message of the exception in a 500 response. The only one
  modelled is the failed conversion of a parameter to the type of an id column; \<open>uuid_in\<close>
  is the store's conversion, and gives the id as the store compares it.
\<close>

definition cast_error :: "string \<Rightarrow> string" where
  "cast_error v = ''invalid input syntax for type uuid: '' @ [CHR 0x22] @ v @ [CHR 0x22]"

subsection \<open>POST /api/tickets/validate\<close>

record validate_request =
  vr_authorization :: "string option"
  vr_ticketId :: "string option"

datatype validate_status = VALID | ALREADY_USED | NOT_FOUND

datatype validate_response =
    VError nat string
  | VOk validate_status "ticket_row option"

definition validate_POST ::
  "(string \<Rightarrow> string) \<Rightarrow> (string \<Rightarrow> string option) \<Rightarrow> store \<Rightarrow> nat \<Rightarrow> validate_request
     \<Rightarrow> validate_response \<times> store \<times> sql list"
where
  "validate_POST sha256 uuid_in db now req =
     (case bearer_token (case vr_authorization req of None \<Rightarrow> [] | Some a \<Rightarrow> a) of
        None \<Rightarrow> (VError 401 ''Missing Authorization Bearer token'', db, [])
      | Some token \<Rightarrow>
          (case vr_ticketId req of
             None \<Rightarrow> (VError 400 ''ticketId is required'', db, [])
           | Some ticketId \<Rightarrow>
               if ticketId = [] then (VError 400 ''ticketId is required'', db, [])
               else
                 let tokenHash = sha256 token
                 in (case select_scanner_key db tokenHash now of
                       None \<Rightarrow> (VError 403 ''Invalid scanner key'', db, [SelectScannerKey tokenHash])
                     | Some key \<Rightarrow>
                         let scannerEventId = sk_event_id key;
                             scannerKeyId = sk_id key
                         in (case uuid_in ticketId of
                               None \<Rightarrow>
                                 (VError 500 (cast_error ticketId), db,
                                  [SelectScannerKey tokenHash,
                                   UpdateTicketUsed ticketId scannerEventId scannerKeyId])
                             | Some u \<Rightarrow>
                                 (case update_ticket_used db u scannerEventId scannerKeyId now of
                                    (db', rowCount) \<Rightarrow>
                                      let ticket = loadTicketRow db' u scannerEventId;
                                          queries = [SelectScannerKey tokenHash,
                                                     UpdateTicketUsed ticketId scannerEventId scannerKeyId,
                                                     SelectTicketRow ticketId scannerEventId]
                                      in if rowCount = 1 then (VOk VALID ticket, db', queries)
                                         else (case ticket of
                                                 None \<Rightarrow> (VOk NOT_FOUND None, db', queries)
                                               | Some t \<Rightarrow> (VOk ALREADY_USED (Some t), db', queries)))))))"

subsection \<open>GET /api/tickets/get\<close>

datatype get_response =
    GError nat string
  | GOk ticket_row

definition select_ticket :: "store \<Rightarrow> string \<Rightarrow> ticket_row option" where
  "select_ticket db ticketId =
     (case filter (\<lambda>(t, tt, e). t_id t = ticketId) (tickets_joined db) of
        [] \<Rightarrow> None
      | (t, tt, e) # _ \<Rightarrow> Some ((joined_row db t tt e)\<lparr>row_used_by_scanner_key_id := None, row_scanned_by := None\<rparr>))"

definition get_GET :: "(string \<Rightarrow> string option) \<Rightarrow> store \<Rightarrow> string option \<Rightarrow> get_response \<times> sql list" where
  "get_GET uuid_in db id_param =
     (case id_param of
        None \<Rightarrow> (GError 400 ''Missing query param: id'', [])
      | Some i \<Rightarrow>
          if i = [] then (GError 400 ''Missing query param: id'', [])
          else if \<not> uuid_test i then (GError 400 ''Invalid id (expected UUID)'', [])
          else (case uuid_in i of
                  None \<Rightarrow> (GError 500 (cast_error i), [SelectTicket i])
                | Some u \<Rightarrow>
                    (case select_ticket db u of
                       None \<Rightarrow> (GError 404 ''NOT_FOUND'', [SelectTicket i])
                     | Some row \<Rightarrow> (GOk row, [SelectTicket i]))))"

subsection \<open>POST /api/admin/tickets/burn\<close>

record server_env =
  env_ISSUE_API_KEY :: "string option"
  env_ADMIN_API_KEY :: "string option"
  env_TICKETS_PUBLIC_BASE_URL :: "string option"
  env_from :: string
  env_replyTo :: string

text \<open>\<open>requireAdminAuth\<close>: the error response, or nothing when the request is authorized.\<close>

definition requireAdminAuth :: "server_env \<Rightarrow> string option \<Rightarrow> (nat \<times> string) option" where
  "requireAdminAuth env authorization =
     (let requiredKey = trim (case env_ADMIN_API_KEY env of
                                Some k \<Rightarrow> k
                              | None \<Rightarrow> (case env_ISSUE_API_KEY env of Some k \<Rightarrow> k | None \<Rightarrow> []))
      in if requiredKey = [] then Some (500, ''Admin auth not configured'')
         else (case bearer_token (case authorization of None \<Rightarrow> [] | Some a \<Rightarrow> a) of
                 None \<Rightarrow> Some (401, ''Unauthorized'')
               | Some token \<Rightarrow> if token \<noteq> requiredKey then Some (401, ''Unauthorized'') else None))"

text \<open>\<open>Array.from(new Set(xs))\<close>: the first occurrence of each element, in order.\<close>

fun uniq :: "'a list \<Rightarrow> 'a list \<Rightarrow> 'a list" where
  "uniq seen [] = []"
| "uniq seen (x # xs) = (if x \<in> set seen then uniq seen xs else x # uniq (x # seen) xs)"

fun strings_of :: "json list \<Rightarrow> string list" where
  "strings_of [] = []"
| "strings_of (JStr s # vs) = s # strings_of vs"
| "strings_of (v # vs) = strings_of vs"

text \<open>The array \<open>ids\<close> of \<open>normalizeTicketIds\<close> after the pushes, and its result.\<close>

definition pushed_ids :: "json \<Rightarrow> string list" where
  "pushed_ids input =
     (case input of JStr s \<Rightarrow> [s] | _ \<Rightarrow> []) @ (case input of JArr vs \<Rightarrow> strings_of vs | _ \<Rightarrow> [])"

definition normalizeTicketIds :: "json \<Rightarrow> string list" where
  "normalizeTicketIds input = uniq [] (filter uuid_test (map trim (pushed_ids input)))"

record burn_request =
  br_authorization :: "string option"
  br_ticketId :: json
  br_ticketIds :: json

datatype burn_response =
    BError nat string
  | BOk nat "(string \<times> bool) list"

text \<open>\<open>$1::uuid[]\<close>: every element is converted; one failure fails the statement.\<close>

fun uuid_array_in :: "(string \<Rightarrow> string option) \<Rightarrow> string list \<Rightarrow> string + string list" where
  "uuid_array_in uuid_in [] = Inr []"
| "uuid_array_in uuid_in (x # xs) =
     (case uuid_in x of
        None \<Rightarrow> Inl (cast_error x)
      | Some u \<Rightarrow> (case uuid_array_in uuid_in xs of Inl e \<Rightarrow> Inl e | Inr us \<Rightarrow> Inr (u # us)))"

definition burn_POST ::
  "server_env \<Rightarrow> (string \<Rightarrow> string option) \<Rightarrow> store \<Rightarrow> nat \<Rightarrow> burn_request
     \<Rightarrow> burn_response \<times> store \<times> sql list"
where
  "burn_POST env uuid_in db now req =
     (case requireAdminAuth env (br_authorization req) of
        Some (status, error) \<Rightarrow> (BError status error, db, [])
      | None \<Rightarrow>
          let ids = normalizeTicketIds (nullish_or (br_ticketIds req) (br_ticketId req))
          in if length ids = 0
             then (BError 400 ''ticketId or ticketIds (UUID) is required'', db, [])
             else (case uuid_array_in uuid_in ids of
                     Inl e \<Rightarrow> (BError 500 e, db, [UpdateTicketsBurn ids])
                   | Inr us \<Rightarrow>
                       (case update_tickets_burn db us now of
                          (db', rows) \<Rightarrow>
                            (BOk (length rows) (map (\<lambda>t. (t_id t, t_used t)) rows), db',
                             [UpdateTicketsBurn ids]))))"

subsection \<open>POST /api/tickets/issue\<close>

record attachment =
  att_filename :: string
  att_content :: string
  att_contentType :: string

text \<open>The message given to \<open>sendMail\<close>; its html part repeats the text part and is left out.\<close>

record mail =
  mail_from :: string
  mail_to :: string
  mail_replyTo :: "string option"
  mail_subject :: string
  mail_text :: string
  mail_attachments :: "attachment list"

text \<open>
  The two collaborators of the route: \<open>QRCode.toBuffer\<close>, which gives the image in base64 or
  throws, and \<open>getSmtpTransport\<close>, which gives an error or a transporter whose \<open>sendMail\<close>
  gives a message id or throws.
\<close>

record mailer =
  QRCode_toBuffer :: "string \<Rightarrow> string + string"
  getSmtpTransport :: "string + (mail \<Rightarrow> string + string)"

datatype effect = QrGenerated string | SendMail mail

record issue_request =
  ir_authorization :: "string option"
  ir_origin :: string
  ir_ticketTypeId :: "string option"
  ir_email :: "string option"
  ir_name :: "string option"
  ir_linkOnly :: json
  ir_skipEmail :: json

datatype email_result =
    EmailOk string
  | EmailFailed string "bool option"

record issued =
  is_ticketId :: string
  is_ticketUrl :: string
  is_issuedAt :: nat
  is_subject :: string
  is_emailMeta :: "(string \<times> string option) option"
  is_email :: email_result

datatype issue_response =
    IError nat string
  | IOk issued

definition subjectLine :: string where
  "subjectLine = [CHR 0xDE] @ ''inn mi'' @ [CHR 0xF0] @ ''i '' @ [CHR 0xE1] @ '' '' @
                 [CHR 0xC1] @ ''rsh'' @ [CHR 0xE1] @ ''t'' @ [CHR 0xED, CHR 0xF0] @ '' FV!''"

definition ticket_mail :: "server_env \<Rightarrow> string \<Rightarrow> string option \<Rightarrow> string \<Rightarrow> string \<Rightarrow> attachment list \<Rightarrow> mail" where
  "ticket_mail env email name ticketUrl ticketId atts =
     (let safeName = trim (case name of None \<Rightarrow> [] | Some n \<Rightarrow> n);
          greeting = (if safeName \<noteq> [] then [CHR ''H'', CHR 0xE6] @ '' '' @ safeName
                      else [CHR ''H'', CHR 0xE6])
      in \<lparr>mail_from = env_from env, mail_to = email,
          mail_replyTo = (if env_replyTo env \<noteq> [] then Some (env_replyTo env) else None),
          mail_subject = subjectLine,
          mail_text = subjectLine @ [CHR 0x0A, CHR 0x0A] @ greeting @ ''.'' @ [CHR 0x0A, CHR 0x0A] @
                      ''Opna mi'' @ [CHR 0xF0] @ ''a: '' @ ticketUrl @ [CHR 0x0A, CHR 0x0A] @
                      ''Mi'' @ [CHR 0xF0] @ ''a-ID: '' @ ticketId,
          mail_attachments = atts\<rparr>)"

text \<open>The ticket type query of the route: the type joined with its event, \<open>limit 1\<close>.\<close>

definition select_ticket_type :: "store \<Rightarrow> string \<Rightarrow> ticket_type option" where
  "select_ticket_type db ticketTypeId =
     find (\<lambda>tt. tt_id tt = ticketTypeId \<and> list_ex (\<lambda>e. e_id e = tt_event_id tt) (events db))
          (ticket_types db)"

text \<open>
  The part of the route after the insert: the image, the message and the response.
  An exception of \<open>QRCode.toBuffer\<close> reaches the outer \<open>catch\<close>; an exception of
  \<open>sendMail\<close> is caught next to the call.
\<close>

definition after_insert ::
  "server_env \<Rightarrow> mailer \<Rightarrow> issue_request \<Rightarrow> string \<Rightarrow> ticket \<Rightarrow> issue_response \<times> effect list"
where
  "after_insert env ext req email t =
     (let ticketId = t_id t;
          publicBase = (case env_TICKETS_PUBLIC_BASE_URL env of Some b \<Rightarrow> b | None \<Rightarrow> ir_origin req);
          ticketUrl = publicBase @ ''/t/'' @ ticketId;
          linkOnlyParsed = toBooleanOrUndefined (ir_linkOnly req);
          isLinkOnly = (case linkOnlyParsed of Some b \<Rightarrow> b | None \<Rightarrow> True);
          shouldAttachQr = (\<not> isLinkOnly)
      in case (if shouldAttachQr then map_sum id Some (QRCode_toBuffer ext ticketId) else Inr None) of
           Inl e \<Rightarrow> (IError 500 e, [])
         | Inr qrPngBase64 \<Rightarrow>
             let fx = (if shouldAttachQr then [QrGenerated ticketId] else []);
                 skipEmailParsed = (case toBooleanOrUndefined (ir_skipEmail req) of Some b \<Rightarrow> b | None \<Rightarrow> False);
                 respond = (\<lambda>emailMeta emailResult.
                   IOk \<lparr>is_ticketId = ticketId, is_ticketUrl = ticketUrl, is_issuedAt = t_issued_at t,
                        is_subject = subjectLine, is_emailMeta = emailMeta, is_email = emailResult\<rparr>)
             in if skipEmailParsed
                then (respond None (EmailFailed ''Skipped'' (Some True)), fx)
                else
                  let emailMeta = Some (env_from env,
                                        if env_replyTo env \<noteq> [] then Some (env_replyTo env) else None)
                  in (case getSmtpTransport ext of
                        Inl error \<Rightarrow> (respond emailMeta (EmailFailed error (Some True)), fx)
                      | Inr sendMail \<Rightarrow>
                          let atts = (case qrPngBase64 of
                                        Some b64 \<Rightarrow>
                                          if shouldAttachQr \<and> b64 \<noteq> []
                                          then [\<lparr>att_filename = ''ticket-'' @ ticketId @ ''.png'',
                                                  att_content = b64, att_contentType = ''image/png''\<rparr>]
                                          else []
                                      | None \<Rightarrow> []);
                              m = ticket_mail env email (ir_name req) ticketUrl ticketId atts
                          in (case sendMail m of
                                Inl message \<Rightarrow> (respond emailMeta (EmailFailed message None), fx @ [SendMail m])
                              | Inr messageId \<Rightarrow> (respond emailMeta (EmailOk messageId), fx @ [SendMail m]))))"

definition issue_POST ::
  "server_env \<Rightarrow> mailer \<Rightarrow> (string \<Rightarrow> string option) \<Rightarrow> store \<Rightarrow> nat \<Rightarrow> string \<Rightarrow> issue_request
     \<Rightarrow> issue_response \<times> store \<times> effect list"
where
  "issue_POST env ext uuid_in db now new_id req =
     (let requiredKey = (case env_ISSUE_API_KEY env of Some k \<Rightarrow> k | None \<Rightarrow> []);
          token = bearer_token (case ir_authorization req of None \<Rightarrow> [] | Some a \<Rightarrow> a)
      in if requiredKey \<noteq> [] \<and> (case token of None \<Rightarrow> True | Some tk \<Rightarrow> tk \<noteq> requiredKey)
         then (IError 401 ''Unauthorized'', db, [])
         else (case (ir_ticketTypeId req, ir_email req) of
                 (Some ticketTypeId, Some email) \<Rightarrow>
                   if ticketTypeId = [] \<or> email = []
                   then (IError 400 ''ticketTypeId and email are required'', db, [])
                   else (case uuid_in ticketTypeId of
                           None \<Rightarrow> (IError 500 (cast_error ticketTypeId), db, [])
                         | Some tid \<Rightarrow>
                             (case select_ticket_type db tid of
                                None \<Rightarrow> (IError 400 ''Invalid ticketTypeId'', db, [])
                              | Some tt \<Rightarrow>
                                  (case insert_ticket db new_id now tid email (ir_name req) of
                                     (db', t) \<Rightarrow>
                                       (case after_insert env ext req email t of
                                          (resp, fx) \<Rightarrow> (resp, db', fx)))))
               | _ \<Rightarrow> (IError 400 ''ticketTypeId and email are required'', db, [])))"

section \<open>Racing redemptions\<close>

text \<open>
  Several validate requests for the same token, each already past its scanner key query,
  run against one store. A request sends two statements: the conditional update, then
  \<open>loadTicketRow\<close>. The store runs each statement atomically; the statements of different
  requests interleave in any order, given by a schedule that names the request whose next
  statement runs.
\<close>

record redeem_call =
  rc_scannerKeyId :: string
  rc_scannerEventId :: string
  rc_now :: nat

datatype call_pc = AtUpdate | AtReload nat | Returned validate_status

definition call_step :: "string \<Rightarrow> redeem_call \<Rightarrow> store \<Rightarrow> call_pc \<Rightarrow> store \<times> call_pc" where
  "call_step u c db pc =
     (case pc of
        AtUpdate \<Rightarrow>
          (case update_ticket_used db u (rc_scannerEventId c) (rc_scannerKeyId c) (rc_now c) of
             (db', rowCount) \<Rightarrow> (db', AtReload rowCount))
      | AtReload rowCount \<Rightarrow>
          (db, Returned (if rowCount = 1 then VALID
                         else (case loadTicketRow db u (rc_scannerEventId c) of
                                 None \<Rightarrow> NOT_FOUND
                               | Some t \<Rightarrow> ALREADY_USED)))
      | Returned st \<Rightarrow> (db, Returned st))"

fun run_schedule :: "string \<Rightarrow> redeem_call list \<Rightarrow> nat list \<Rightarrow> store \<times> call_pc list \<Rightarrow> store \<times> call_pc list" where
  "run_schedule u calls [] st = st"
| "run_schedule u calls (i # sched) (db, pcs) =
     (if i < length calls \<and> i < length pcs
      then (case call_step u (calls ! i) db (pcs ! i) of
              (db', pc') \<Rightarrow> run_schedule u calls sched (db', pcs[i := pc']))
      else run_schedule u calls sched (db, pcs))"

definition race :: "string \<Rightarrow> redeem_call list \<Rightarrow> nat list \<Rightarrow> store \<Rightarrow> store \<times> call_pc list" where
  "race u calls sched db = run_schedule u calls sched (db, replicate (length calls) AtUpdate)"

section \<open>State invariants\<close>

definition ticket_inv :: "ticket \<Rightarrow> bool" where
  "ticket_inv t =
     ((t_used_at t \<noteq> None) = t_used t \<and> (t_used_by_scanner_key_id t \<noteq> None) = t_used t)"

definition store_inv :: "store \<Rightarrow> bool" where
  "store_inv db = list_all ticket_inv (tickets db)"

definition ticket_stamped :: "ticket \<Rightarrow> bool" where
  "ticket_stamped t =
     ((t_used_at t \<noteq> None) = t_used t \<and> (t_used_by_scanner_key_id t \<noteq> None \<longrightarrow> t_used t))"

definition store_stamped :: "store \<Rightarrow> bool" where
  "store_stamped db = list_all ticket_stamped (tickets db)"

text \<open>No ticket of \<open>db\<close> is missing or back to unused in \<open>db'\<close>.\<close>

definition used_kept :: "store \<Rightarrow> store \<Rightarrow> bool" where
  "used_kept db db' =
     (length (tickets db) \<le> length (tickets db') \<and>
      list_all2 (\<lambda>t t'. t_id t' = t_id t \<and> (t_used t \<longrightarrow> t_used t'))
        (tickets db) (take (length (tickets db)) (tickets db')))"

section \<open>Derived notions used in the statements\<close>

text \<open>An effect of a link-only request: no image generated, no attachment sent.\<close>

definition no_qr :: "effect \<Rightarrow> bool" where
  "no_qr x = (case x of QrGenerated i \<Rightarrow> False | SendMail m \<Rightarrow> mail_attachments m = [])"

text \<open>
  The checks of the issue route before its insert: the converted ticket type id and the
  email of a request that reaches the insert.
\<close>

definition issue_inserts :: "server_env \<Rightarrow> (string \<Rightarrow> string option) \<Rightarrow> store \<Rightarrow> issue_request \<Rightarrow> (string \<times> string) option" where
  "issue_inserts env uuid_in db req =
     (let requiredKey = (case env_ISSUE_API_KEY env of Some k \<Rightarrow> k | None \<Rightarrow> []);
          token = bearer_token (case ir_authorization req of None \<Rightarrow> [] | Some a \<Rightarrow> a)
      in if requiredKey \<noteq> [] \<and> (case token of None \<Rightarrow> True | Some tk \<Rightarrow> tk \<noteq> requiredKey) then None
         else (case (ir_ticketTypeId req, ir_email req) of
                 (Some ticketTypeId, Some email) \<Rightarrow>
                   if ticketTypeId = [] \<or> email = [] then None
                   else (case uuid_in ticketTypeId of
                           None \<Rightarrow> None
                         | Some tid \<Rightarrow>
                             (case select_ticket_type db tid of
                                None \<Rightarrow> None
                              | Some tt \<Rightarrow> Some (tid, email)))
               | _ \<Rightarrow> None))"

text \<open>
  The precedence rule as the specification words it, on a normalized text: food and ball
  give the combined type whatever else is there; otherwise exactly \<open>ball\<close>, or \<open>bara\<close>
  together with \<open>ball\<close>, give the ball-only type; otherwise nothing.
\<close>

datatype resolved = Combined | DanceOnly | NoMatch

definition claimed_resolve :: "int list \<Rightarrow> resolved" where
  "claimed_resolve key =
     (if has_word ''ball'' key \<and> (has_word ''matur'' key \<or> has_word ''mat'' key) then Combined
      else if key = units ''ball'' \<or> (has_word ''bara'' key \<and> has_word ''ball'' key) then DanceOnly
      else NoMatch)"

section \<open>Sample data\<close>

text \<open>
  A store conversion that accepts the canonical token shape and reads it without regard to
  case, a digest, and a small store: one event with two ticket types, a second event with
  one, an unused ticket, a ticket redeemed by the first key, and a ticket of the second event.
\<close>

definition sample_uuid_in :: "string \<Rightarrow> string option" where
  "sample_uuid_in s = (if uuid_test s then Some (toLowerCase s) else None)"

definition sample_digest :: "string \<Rightarrow> string" where
  "sample_digest s = ''digest:'' @ s"

definition type_food :: string where "type_food = ''aaaaaaaa-aaaa-4aaa-8aaa-aaaaaaaaaaaa''"
definition type_ball :: string where "type_ball = ''bbbbbbbb-bbbb-4bbb-8bbb-bbbbbbbbbbbb''"
definition type_other :: string where "type_other = ''cccccccc-cccc-4ccc-8ccc-cccccccccccc''"
definition token_a :: string where "token_a = ''11111111-1111-4111-8111-111111111111''"
definition token_b :: string where "token_b = ''22222222-2222-4222-8222-222222222222''"
definition token_c :: string where "token_c = ''33333333-3333-4333-8333-333333333333''"
definition token_new :: string where "token_new = ''44444444-4444-4444-8444-444444444444''"

definition sample_store :: store where
  "sample_store =
     \<lparr>tickets =
        [\<lparr>t_id = token_a, t_ticket_type_id = type_food, t_email = ''a@hi.is'', t_name = Some ''Anna'',
          t_used = False, t_used_at = None, t_used_by_scanner_key_id = None, t_issued_at = 1\<rparr>,
         \<lparr>t_id = token_b, t_ticket_type_id = type_ball, t_email = ''b@hi.is'', t_name = None,
          t_used = True, t_used_at = Some 5, t_used_by_scanner_key_id = Some ''key1'', t_issued_at = 2\<rparr>,
         \<lparr>t_id = token_c, t_ticket_type_id = type_other, t_email = ''c@hi.is'', t_name = None,
          t_used = False, t_used_at = None, t_used_by_scanner_key_id = None, t_issued_at = 3\<rparr>],
      ticket_types =
        [\<lparr>tt_id = type_food, tt_event_id = ''event1'', tt_name = ''Matur + ball'', tt_price_isk = 9000\<rparr>,
         \<lparr>tt_id = type_ball, tt_event_id = ''event1'', tt_name = ''Bara ball'', tt_price_isk = 4000\<rparr>,
         \<lparr>tt_id = type_other, tt_event_id = ''event2'', tt_name = ''Bara ball'', tt_price_isk = 3000\<rparr>],
      events =
        [\<lparr>e_id = ''event1'', e_name = ''FV'', e_starts_at = Some 100, e_ends_at = None, e_venue = None\<rparr>,
         \<lparr>e_id = ''event2'', e_name = ''Annad'', e_starts_at = None, e_ends_at = None, e_venue = None\<rparr>],
      scanner_keys =
        [\<lparr>sk_id = ''key1'', sk_key_hash = sample_digest ''door-1'', sk_event_id = ''event1'',
          sk_active = True, sk_expires_at = None, sk_label = Some ''Door 1''\<rparr>,
         \<lparr>sk_id = ''key2'', sk_key_hash = sample_digest ''door-2'', sk_event_id = ''event2'',
          sk_active = True, sk_expires_at = Some 50, sk_label = None\<rparr>]\<rparr>"

definition sample_env :: server_env where
  "sample_env =
     \<lparr>env_ISSUE_API_KEY = Some ''issue-key'', env_ADMIN_API_KEY = None,
      env_TICKETS_PUBLIC_BASE_URL = Some ''https://tickets.example'',
      env_from = ''tickets@example.is'', env_replyTo = []\<rparr>"

definition sample_mailer :: mailer where
  "sample_mailer =
     \<lparr>QRCode_toBuffer = (\<lambda>data. Inr (''png:'' @ data)),
      getSmtpTransport = Inr (\<lambda>m. Inr ''message-1'')\<rparr>"

definition sample_issue_request :: issue_request where
  "sample_issue_request =
     \<lparr>ir_authorization = Some ''Bearer issue-key'', ir_origin = ''https://origin.example'',
      ir_ticketTypeId = Some type_food, ir_email = Some ''new@hi.is'', ir_name = Some ''Nyr'',
      ir_linkOnly = JUndefined, ir_skipEmail = JUndefined\<rparr>"

section \<open>Retry policy\<close>

text \<open>
  An outcome after which \<open>fetchJsonWithRetry\<close> tries again: status 429, a status from 500
  on, or a network-level failure. \<open>settled\<close> is the value a caller gets for the outcome of
  the last attempt: the response with its status and body, \<open>ok\<close> for a status from 200 to
  299, or status 0 with the message of the network failure. \<open>backoff baseD a k\<close> is the
  attempts \<open>a\<close> to \<open>k\<close> with the delay slept after each attempt but the last.
\<close>

definition transient :: "fetch_outcome \<Rightarrow> bool" where
  "transient out =
     (case out of Response status js \<Rightarrow> status = 429 \<or> status \<ge> 500 | NetworkError e \<Rightarrow> True)"

definition settled :: "fetch_outcome \<Rightarrow> fetch_result" where
  "settled out =
     (case out of
        Response status js \<Rightarrow>
          \<lparr>fr_ok = (200 \<le> status \<and> status \<le> 299), fr_status = status, fr_json = js\<rparr>
      | NetworkError e \<Rightarrow>
          \<lparr>fr_ok = False, fr_status = 0,
           fr_json = JObj [(''ok'', JBool False), (''error'', JStr e)]\<rparr>)"

definition backoff :: "nat \<Rightarrow> nat \<Rightarrow> nat \<Rightarrow> retry_event list" where
  "backoff baseD a k =
     concat (map (\<lambda>i. [Attempt i, Sleep (baseD * 2 ^ (i - 1))]) [a..<k]) @ [Attempt k]"

text \<open>
  Sample remotes: one that recovers at the third attempt, one that is down, one that is
  overloaded, and one that rejects the request.
\<close>

definition sample_fetch :: "nat \<Rightarrow> fetch_outcome" where
  "sample_fetch k =
     (if k = 1 then Response 503 (JObj [])
      else if k = 2 then NetworkError ''socket hang up''
      else Response 200 (JObj [(''ok'', JBool True), (''ticketId'', JStr token_new)]))"

definition down_fetch :: "nat \<Rightarrow> fetch_outcome" where
  "down_fetch k = NetworkError ''fetch failed''"

definition busy_fetch :: "nat \<Rightarrow> fetch_outcome" where
  "busy_fetch k = (if k = 2 then Response 429 (JObj []) else Response 503 (JObj [(''error'', JStr ''busy'')]))"

definition rejecting_fetch :: "nat \<Rightarrow> fetch_outcome" where
  "rejecting_fetch k = Response 400 (JObj [(''ok'', JBool False), (''error'', JStr ''Invalid ticketTypeId'')])"

section \<open>Burn targets\<close>

text \<open>
  The well-formed tokens of a burn request as the store reads them: the entries of the
  input that are strings and, once trimmed, have the canonical shape, converted by the store.
\<close>

definition burn_targets :: "(string \<Rightarrow> string option) \<Rightarrow> json \<Rightarrow> string list" where
  "burn_targets uuid_in input =
     List.map_filter uuid_in (filter uuid_test (map trim (pushed_ids input)))"

definition sample_burn_request :: burn_request where
  "sample_burn_request =
     \<lparr>br_authorization = Some ''Bearer issue-key'', br_ticketId = JStr ''ignored'',
      br_ticketIds = JArr [JStr token_b, JStr ('' '' @ token_b @ '' ''), JStr ''junk'', JNum 4,
                           JStr token_new, JStr token_a]\<rparr>"

definition sample_validate_request :: validate_request where
  "sample_validate_request = \<lparr>vr_authorization = Some ''Bearer door-1'', vr_ticketId = Some token_a\<rparr>"

section \<open>Calls of a pipeline run\<close>

text \<open>The recipients of the issue calls of a run, in order.\<close>

fun called :: "pipeline_event list \<Rightarrow> string list" where
  "called [] = []"
| "called (IssueCall email evs # es) = email # called es"
| "called (Pause ms # es) = called es"

definition issue_opts :: retry_opts where
  "issue_opts = \<lparr>maxAttempts = Some 6, baseDelayMs = Some 800\<rparr>"

definition sample_args :: pipeline_args where
  "sample_args = \<lparr>arg_dryRun = False, arg_max = 0, arg_delayMs = 800, arg_skip = [''skip@hi.is'']\<rparr>"

definition sample_types :: "(string \<times> string) list" where
  "sample_types = [(''Matur + ball'', type_food), (''Bara ball'', type_ball)]"

definition sample_lines :: "sheet_row list" where
  "sample_lines =
     [\<lparr>emailRaw = '' A@B.is '', paidRaw = [CHR ''J'', CHR 0xE1], nameRaw = ''Anna'', typeRaw = ''mat og ball''\<rparr>,
      \<lparr>emailRaw = ''c@d.is'', paidRaw = ''Nei'', nameRaw = ''Carl'', typeRaw = ''Bara ball''\<rparr>,
      \<lparr>emailRaw = ''a@b.is'', paidRaw = ''ja'', nameRaw = ''Anna again'', typeRaw = ''Bara ball''\<rparr>,
      \<lparr>emailRaw = ''e@f.is'', paidRaw = ''Ja'', nameRaw = [], typeRaw = ''Bara ball''\<rparr>,
      \<lparr>emailRaw = ''skip@hi.is'', paidRaw = ''ja'', nameRaw = ''S'', typeRaw = ''ball''\<rparr>]"

definition sample_remote :: "paid_row \<Rightarrow> nat \<Rightarrow> fetch_outcome" where
  "sample_remote row k =
     (if k = 1 \<and> r_email row = ''e@f.is'' then Response 503 (JObj [])
      else Response 200 (JObj [(''ok'', JBool True), (''ticketId'', JStr (''T-'' @ r_email row)),
                               (''ticketUrl'', JStr (''https://tickets.example/t/T-'' @ r_email row))]))"

definition failing_remote :: "paid_row \<Rightarrow> nat \<Rightarrow> fetch_outcome" where
  "failing_remote row k = Response 400 (JObj [(''ok'', JBool False), (''error'', JStr ''Invalid ticketTypeId'')])"

section \<open>Invariant of a race\<close>

text \<open>
  The store once the call \<open>c\<close> has redeemed the ticket with id \<open>u\<close>, how far a call
  has got, and the invariant of a race over the store \<open>db\<close>: either nothing has run, or
  exactly one call \<open>w\<close> has redeemed the ticket, and every other call has not yet run its
  update, or has run it on no row, or has returned ALREADY_USED.
\<close>

definition won :: "store \<Rightarrow> string \<Rightarrow> redeem_call \<Rightarrow> store" where
  "won db u c =
     db\<lparr>tickets := map (\<lambda>x. if t_id x = u then redeemed (rc_scannerKeyId c) (rc_now c) x else x)
                         (tickets db)\<rparr>"

fun pc_rank :: "call_pc \<Rightarrow> nat" where
  "pc_rank AtUpdate = 0"
| "pc_rank (AtReload n) = 1"
| "pc_rank (Returned st) = 2"



section \<open>Issuance: what happens after the insert\<close>

lemma ticket_mail_attachments [simp]:
  "mail_attachments (ticket_mail env email name ticketUrl ticketId atts) = atts"
  by (simp add: ticket_mail_def Let_def)

lemma after_insert_link_only:
  assumes "toBooleanOrUndefined (ir_linkOnly req) \<noteq> Some False"
  shows "list_all no_qr (snd (after_insert env ext req email t))"
proof -
  have L: "(case toBooleanOrUndefined (ir_linkOnly req) of Some b \<Rightarrow> b | None \<Rightarrow> True) = True"
    using assms by (cases "toBooleanOrUndefined (ir_linkOnly req)") auto
  show ?thesis
    unfolding after_insert_def Let_def L
    by (simp add: no_qr_def split: option.splits sum.splits)
qed

lemma issue_POST_rejected:
  "issue_inserts env uuid_in db req = None \<Longrightarrow>
   \<exists>status msg. issue_POST env ext uuid_in db now new_id req = (IError status msg, db, [])"
  unfolding issue_inserts_def issue_POST_def Let_def
  by (auto split: option.splits if_splits prod.splits)

lemma issue_POST_inserted:
  "issue_inserts env uuid_in db req = Some (tid, email) \<Longrightarrow>
   issue_POST env ext uuid_in db now new_id req =
     (fst (after_insert env ext req email (snd (insert_ticket db new_id now tid email (ir_name req)))),
      fst (insert_ticket db new_id now tid email (ir_name req)),
      snd (after_insert env ext req email (snd (insert_ticket db new_id now tid email (ir_name req)))))"
  unfolding issue_inserts_def issue_POST_def Let_def
  by (auto split: option.splits if_splits prod.splits)

lemma after_insert_mail_failure:
  assumes "toBooleanOrUndefined (ir_linkOnly req) \<noteq> Some False"
  shows "\<exists>r. fst (after_insert env ext req email t) = IOk r \<and> is_ticketId r = t_id t
              \<and> is_issuedAt r = t_issued_at t"
proof -
  have L: "(case toBooleanOrUndefined (ir_linkOnly req) of Some b \<Rightarrow> b | None \<Rightarrow> True) = True"
    using assms by (cases "toBooleanOrUndefined (ir_linkOnly req)") auto
  show ?thesis
    unfolding after_insert_def Let_def L
    by (simp split: option.splits sum.splits)
qed

lemma after_insert_qr_ok:
  assumes "QRCode_toBuffer ext (t_id t) = Inr b64"
  shows "\<exists>r. fst (after_insert env ext req email t) = IOk r \<and> is_ticketId r = t_id t
              \<and> is_issuedAt r = t_issued_at t"
  unfolding after_insert_def Let_def using assms
  by (simp split: option.splits sum.splits)

text \<open>
  C10. A request to the issue route whose \<open>linkOnly\<close> is absent, or parses to neither true
  nor false, or parses to true, is link-only: no image is generated and no message carries
  an attachment. An image is generated and attached only when \<open>linkOnly\<close> parses to false.
\<close>

theorem issue_linkOnly_default:
  "toBooleanOrUndefined (ir_linkOnly req) \<noteq> Some False \<longrightarrow>
     list_all no_qr (snd (snd (issue_POST env ext uuid_in db now new_id req)))"
proof (cases "issue_inserts env uuid_in db req")
  case None
  from issue_POST_rejected[OF this, of ext now new_id] show ?thesis by auto
next
  case (Some p)
  obtain tid email where "p = (tid, email)" by (cases p)
  with Some issue_POST_inserted[of env uuid_in db req tid email ext now new_id]
  show ?thesis by (simp add: after_insert_link_only)
qed

theorem issue_linkOnly_default_witness:
  "toBooleanOrUndefined (ir_linkOnly sample_issue_request) \<noteq> Some False \<and>
   list_all no_qr (snd (snd (issue_POST sample_env sample_mailer sample_uuid_in sample_store 7
                               token_new sample_issue_request)))"
proof -
  have h: "toBooleanOrUndefined (ir_linkOnly sample_issue_request) \<noteq> Some False"
    by (simp add: sample_issue_request_def)
  with issue_linkOnly_default[of sample_issue_request sample_env sample_mailer sample_uuid_in
         sample_store 7 token_new]
  show ?thesis by blast
qed

text \<open>
  C6 at the failing input: the request asks for the image (\<open>linkOnly\<close> false) and
  \<open>QRCode.toBuffer\<close> throws after the insert. The ticket row is in the store, and the
  response is the 500 error of the outer \<open>catch\<close>, without ticket id, link or email result.
\<close>

theorem issue_qr_failure_after_insert:
  "issue_POST sample_env (sample_mailer\<lparr>QRCode_toBuffer := (\<lambda>data. Inl ''qr failed'')\<rparr>)
     sample_uuid_in sample_store 7 token_new (sample_issue_request\<lparr>ir_linkOnly := JBool False\<rparr>)
   = (IError 500 ''qr failed'',
      sample_store\<lparr>tickets := tickets sample_store @
        [\<lparr>t_id = token_new, t_ticket_type_id = type_food, t_email = ''new@hi.is'',
          t_name = Some ''Nyr'', t_used = False, t_used_at = None,
          t_used_by_scanner_key_id = None, t_issued_at = 7\<rparr>]\<rparr>,
      [])"
  by code_simp

section \<open>Malformed tokens\<close>

lemma get_GET_rejects_malformed:
  "\<not> uuid_test i \<Longrightarrow> \<exists>msg. get_GET uuid_in db (Some i) = (GError 400 msg, [])"
  by (simp add: get_GET_def)

lemma validate_POST_sends_any_token:
  assumes "bearer_token a = Some token" and "select_scanner_key db (sha256 token) now = Some key"
      and "ticketId \<noteq> []"
  shows "UpdateTicketUsed ticketId (sk_event_id key) (sk_id key)
           \<in> set (snd (snd (validate_POST sha256 uuid_in db now
                                \<lparr>vr_authorization = Some a, vr_ticketId = Some ticketId\<rparr>)))"
  using assms
  by (simp add: validate_POST_def Let_def split: option.splits prod.splits)

text \<open>
  C9 at the failing input: the validate route receives the token \<open>undefined\<close> with the
  bearer of an active key. The token does not have the canonical shape, and the route still
  sends the conditional update with it; the store fails to convert it, and the response is
  the 500 error.
\<close>

theorem validate_malformed_token_reaches_store:
  "\<not> uuid_test ''undefined'' \<and>
   validate_POST sample_digest sample_uuid_in sample_store 7
     \<lparr>vr_authorization = Some ''Bearer door-1'', vr_ticketId = Some ''undefined''\<rparr>
   = (VError 500 (cast_error ''undefined''), sample_store,
      [SelectScannerKey (sample_digest ''door-1''), UpdateTicketUsed ''undefined'' ''event1'' ''key1''])"
  by code_simp

section \<open>Ticket type resolver\<close>

lemma word_search_includes: "word_search w b s \<Longrightarrow> str_includes s w"
  by (induction s arbitrary: b) auto

lemma has_word_includes: "has_word w s \<Longrightarrow> str_includes s (units w)"
  by (simp add: has_word_def word_search_includes)

lemma str_includes_prefix: "str_includes s w \<Longrightarrow> prefix v w \<Longrightarrow> str_includes s v"
  by (induction s) (auto intro: prefix_order.trans)

text \<open>A text with a vulgar fraction, the micro sign and an accented capital, normalized.\<close>

lemma normalizeTicketTypeKey_leaves_latin1:
  "normalizeTicketTypeKey ([CHR 0xBD] @ ''  Ball '' @ [CHR 0xB5, CHR 0xC1])
     = [0x31, 0x2044, 0x32, 0x20] @ units ''ball '' @ [0x3BC, 0x61]"
  by code_simp

text \<open>
  C7, as the code has it. The time choice of the issue route follows the precedence rule
  with whole words. The bulk pipeline decides by substrings of the lower-cased text without
  diacritics: \<open>mat\<close> and \<open>ball\<close> give the combined type (so every text the rule calls
  combined); otherwise \<open>ball\<close> alone, with or without a qualifier, gives the ball-only type;
  otherwise no type. Both resolve the four texts of the specification as it says.
\<close>

theorem type_resolver_precedence:
  "subject_time t f =
     (case claimed_resolve (normalizeTicketTypeKey t) of
        Combined \<Rightarrow> ''18:30'' | DanceOnly \<Rightarrow> ''21:00'' | NoMatch \<Rightarrow> f)
   \<and> (claimed_resolve (stripDiacriticsLower (trim t)) = Combined \<longrightarrow> wantedTypeName t = ''Matur + ball'')
   \<and> (str_includes (stripDiacriticsLower (trim t)) (units ''mat'') \<and>
        str_includes (stripDiacriticsLower (trim t)) (units ''ball'') \<longrightarrow> wantedTypeName t = ''Matur + ball'')
   \<and> (\<not> str_includes (stripDiacriticsLower (trim t)) (units ''mat'') \<and>
        str_includes (stripDiacriticsLower (trim t)) (units ''ball'') \<longrightarrow> wantedTypeName t = ''Bara ball'')
   \<and> (\<not> str_includes (stripDiacriticsLower (trim t)) (units ''ball'') \<longrightarrow> wantedTypeName t = [])
   \<and> map wantedTypeName [''Matur og ball'', ''Bara ball'', ''ball'', ''Matur'']
        = [''Matur + ball'', ''Bara ball'', ''Bara ball'', []]
   \<and> map (\<lambda>x. subject_time x ''-'') [''Matur og ball'', ''Bara ball'', ''ball'', ''Matur'']
        = [''18:30'', ''21:00'', ''21:00'', ''-'']"
proof -
  let ?key = "stripDiacriticsLower (trim t)"
  have route: "subject_time t f =
     (case claimed_resolve (normalizeTicketTypeKey t) of
        Combined \<Rightarrow> ''18:30'' | DanceOnly \<Rightarrow> ''21:00'' | NoMatch \<Rightarrow> f)"
  proof -
    have nf: "\<not> has_word ''matur'' (units ''ball'')" "\<not> has_word ''mat'' (units ''ball'')"
      by code_simp+
    show ?thesis
      by (auto simp: subject_time_def claimed_resolve_def isFoodAndBallTicketType_def
            isJustBallTicketType_def Let_def nf)
  qed
  have combined: "claimed_resolve ?key = Combined \<longrightarrow> wantedTypeName t = ''Matur + ball''"
  proof
    assume "claimed_resolve ?key = Combined"
    then have b: "has_word ''ball'' ?key" and m: "has_word ''matur'' ?key \<or> has_word ''mat'' ?key"
      by (auto simp: claimed_resolve_def split: if_splits)
    from b have "str_includes ?key (units ''ball'')" by (rule has_word_includes)
    moreover from m have "str_includes ?key (units ''mat'')"
    proof
      assume "has_word ''matur'' ?key"
      then have "str_includes ?key (units ''matur'')" by (rule has_word_includes)
      then show ?thesis by (rule str_includes_prefix) (simp add: units_def)
    next
      assume "has_word ''mat'' ?key"
      then show ?thesis by (rule has_word_includes)
    qed
    ultimately show "wantedTypeName t = ''Matur + ball''"
      by (simp add: wantedTypeName_def Let_def)
  qed
  have pipeline:
    "(str_includes ?key (units ''mat'') \<and> str_includes ?key (units ''ball'') \<longrightarrow> wantedTypeName t = ''Matur + ball'')
     \<and> (\<not> str_includes ?key (units ''mat'') \<and> str_includes ?key (units ''ball'') \<longrightarrow> wantedTypeName t = ''Bara ball'')
     \<and> (\<not> str_includes ?key (units ''ball'') \<longrightarrow> wantedTypeName t = [])"
    by (simp add: wantedTypeName_def Let_def)
  have ex1: "map wantedTypeName [''Matur og ball'', ''Bara ball'', ''ball'', ''Matur'']
        = [''Matur + ball'', ''Bara ball'', ''Bara ball'', []]"
    by code_simp
  have ex2: "map (\<lambda>x. subject_time x ''-'') [''Matur og ball'', ''Bara ball'', ''ball'', ''Matur'']
        = [''18:30'', ''21:00'', ''21:00'', ''-'']"
    by code_simp
  from route combined pipeline ex1 ex2 show ?thesis by blast
qed

theorem type_resolver_precedence_witness:
  "claimed_resolve (stripDiacriticsLower (trim ''Bara mat og ball'')) = Combined
   \<and> wantedTypeName ''Bara mat og ball'' = ''Matur + ball''
   \<and> subject_time ''Bara mat og ball'' ''-'' = ''18:30''
   \<and> \<not> str_includes (stripDiacriticsLower (trim ''Ball fyrir tvo'')) (units ''mat'')
   \<and> str_includes (stripDiacriticsLower (trim ''Ball fyrir tvo'')) (units ''ball'')
   \<and> wantedTypeName ''Ball fyrir tvo'' = ''Bara ball''
   \<and> \<not> str_includes (stripDiacriticsLower (trim ''Matur'')) (units ''ball'')
   \<and> wantedTypeName ''Matur'' = []"
proof -
  have h1: "claimed_resolve (stripDiacriticsLower (trim ''Bara mat og ball'')) = Combined"
    by code_simp
  have h2: "\<not> str_includes (stripDiacriticsLower (trim ''Ball fyrir tvo'')) (units ''mat'')
            \<and> str_includes (stripDiacriticsLower (trim ''Ball fyrir tvo'')) (units ''ball'')"
    by code_simp
  have h3: "\<not> str_includes (stripDiacriticsLower (trim ''Matur'')) (units ''ball'')"
    by code_simp
  have h4: "claimed_resolve (normalizeTicketTypeKey ''Bara mat og ball'') = Combined"
    by code_simp
  from type_resolver_precedence[of "''Bara mat og ball''" "''-''"] h1 h4
  have c1: "wantedTypeName ''Bara mat og ball'' = ''Matur + ball''
            \<and> subject_time ''Bara mat og ball'' ''-'' = ''18:30''"
    by simp
  from type_resolver_precedence[of "''Ball fyrir tvo''" "''-''"] h2
  have c2: "wantedTypeName ''Ball fyrir tvo'' = ''Bara ball''" by blast
  from type_resolver_precedence[of "''Matur''" "''-''"] h3
  have c3: "wantedTypeName ''Matur'' = []" by blast
  from h1 h2 h3 c1 c2 c3 show ?thesis by blast
qed

text \<open>
  The rule as worded fails on the pipeline: a text with \<open>ball\<close> that is not exactly
  \<open>ball\<close> and has no \<open>bara\<close> is no match for the rule, and the pipeline resolves it to the
  ball-only type.
\<close>

theorem pipeline_ball_without_qualifier:
  "claimed_resolve (stripDiacriticsLower (trim ''Ball fyrir tvo'')) = NoMatch \<and>
   wantedTypeName ''Ball fyrir tvo'' = ''Bara ball''"
  by code_simp

section \<open>Retried remote calls\<close>

lemma transient_not_ok: "transient (Response status js) \<Longrightarrow> \<not> res_ok status"
  by (auto simp: transient_def res_ok_def)

lemma backoff_refl: "backoff baseD k k = [Attempt k]"
  by (simp add: backoff_def)

lemma backoff_step: "a < k \<Longrightarrow> backoff baseD a k = Attempt a # Sleep (baseD * 2 ^ (a - 1)) # backoff baseD (Suc a) k"
  by (simp add: backoff_def upt_rec[of a k])

lemma loop_run:
  assumes "a \<le> k" "k \<le> maxA" "\<forall>i. a \<le> i \<and> i < k \<longrightarrow> transient (fetch i)"
      and "\<not> transient (fetch k) \<or> k = maxA"
  shows "fetchJsonWithRetry_loop fetch maxA baseD a lastErr = (settled (fetch k), backoff baseD a k)"
  using assms
proof (induction "k - a" arbitrary: a lastErr)
  case 0
  then have ak: "a = k" by simp
  show ?case
  proof (cases "fetch k")
    case (Response status js)
    with 0 ak show ?thesis
      by (subst fetchJsonWithRetry_loop.simps)
         (auto simp: settled_def backoff_refl transient_def res_ok_def)
  next
    case (NetworkError e)
    with 0 ak show ?thesis
      by (subst fetchJsonWithRetry_loop.simps)
         (auto simp: settled_def gave_up_def backoff_refl transient_def)
  qed
next
  case (Suc n)
  then have lt: "a < k" and tr: "transient (fetch a)" and amax: "a < maxA" by auto
  have IH: "\<And>le. fetchJsonWithRetry_loop fetch maxA baseD (Suc a) le = (settled (fetch k), backoff baseD (Suc a) k)"
    using Suc.hyps(1)[of "Suc a"] Suc.hyps(2) Suc.prems by auto
  show ?case
  proof (cases "fetch a")
    case (Response status js)
    with tr have "\<not> res_ok status" "status = 429 \<or> status \<ge> 500"
      by (auto simp: transient_def res_ok_def)
    with Response amax lt show ?thesis
      by (subst fetchJsonWithRetry_loop.simps) (simp add: IH backoff_step)
  next
    case (NetworkError e)
    with amax lt show ?thesis
      by (subst fetchJsonWithRetry_loop.simps) (simp add: IH backoff_step)
  qed
qed

lemma stop_exists:
  assumes "1 \<le> (maxA::nat)"
  shows "\<exists>k. 1 \<le> k \<and> k \<le> maxA \<and> (\<forall>i. 1 \<le> i \<and> i < k \<longrightarrow> transient (fetch i))
             \<and> (\<not> transient (fetch k) \<or> k = maxA)"
proof (cases "\<exists>k. 1 \<le> k \<and> k \<le> maxA \<and> \<not> transient (fetch k)")
  case True
  define k where "k = (LEAST k. 1 \<le> k \<and> k \<le> maxA \<and> \<not> transient (fetch k))"
  from True have P: "1 \<le> k \<and> k \<le> maxA \<and> \<not> transient (fetch k)"
    unfolding k_def by (rule LeastI_ex)
  have "\<forall>i. 1 \<le> i \<and> i < k \<longrightarrow> transient (fetch i)"
  proof (intro allI impI)
    fix i assume i: "1 \<le> i \<and> i < k"
    show "transient (fetch i)"
    proof (rule ccontr)
      assume "\<not> transient (fetch i)"
      with i P have "1 \<le> i \<and> i \<le> maxA \<and> \<not> transient (fetch i)" by simp
      then have "k \<le> i" unfolding k_def by (rule Least_le)
      with i show False by simp
    qed
  qed
  with P show ?thesis by blast
next
  case False
  with assms show ?thesis by (intro exI[of _ maxA]) auto
qed

text \<open>
  C8. A call with attempt ceiling \<open>maxA\<close> and base delay \<open>baseD\<close> stops at the first attempt
  \<open>k\<close> whose outcome is not transient (a success or another status), or at the ceiling.
  Before that every attempt \<open>i\<close> had a 429, a status from 500 on or a network failure, and
  was followed by a sleep of \<open>baseD * 2 ^ (i - 1)\<close> and the next attempt; no attempt is made
  after \<open>k\<close>. If attempt \<open>k\<close> gave a response, the call returns its status and body, with
  \<open>ok\<close> exactly for a status from 200 to 299; if it failed at the network level, which
  happens at the ceiling only, the call returns \<open>ok = false\<close>, status 0 and the message of
  the failure. A call that stops at a transient outcome never reports success. Such a \<open>k\<close>
  always exists. The pipeline calls with ceiling 6 and base delay 800.
\<close>

theorem fetchJsonWithRetry_policy:
  assumes "1 \<le> maxA"
  shows "(\<forall>k. 1 \<le> k \<and> k \<le> maxA \<and> (\<forall>i. 1 \<le> i \<and> i < k \<longrightarrow> transient (fetch i))
               \<and> (\<not> transient (fetch k) \<or> k = maxA) \<longrightarrow>
            (\<forall>status js. fetch k = Response status js \<longrightarrow>
               fetchJsonWithRetry fetch \<lparr>maxAttempts = Some maxA, baseDelayMs = Some baseD\<rparr>
                 = (\<lparr>fr_ok = (200 \<le> status \<and> status \<le> 299), fr_status = status, fr_json = js\<rparr>,
                    backoff baseD 1 k))
          \<and> (\<forall>e. fetch k = NetworkError e \<longrightarrow>
               k = maxA \<and>
               fetchJsonWithRetry fetch \<lparr>maxAttempts = Some maxA, baseDelayMs = Some baseD\<rparr>
                 = (\<lparr>fr_ok = False, fr_status = 0,
                     fr_json = JObj [(''ok'', JBool False), (''error'', JStr e)]\<rparr>,
                    backoff baseD 1 k))
          \<and> (transient (fetch k) \<longrightarrow>
               \<not> fr_ok (fst (fetchJsonWithRetry fetch \<lparr>maxAttempts = Some maxA, baseDelayMs = Some baseD\<rparr>))))
       \<and> (\<exists>k. 1 \<le> k \<and> k \<le> maxA \<and> (\<forall>i. 1 \<le> i \<and> i < k \<longrightarrow> transient (fetch i))
               \<and> (\<not> transient (fetch k) \<or> k = maxA))"
proof (intro conjI allI impI)
  show "\<exists>k. 1 \<le> k \<and> k \<le> maxA \<and> (\<forall>i. 1 \<le> i \<and> i < k \<longrightarrow> transient (fetch i))
               \<and> (\<not> transient (fetch k) \<or> k = maxA)"
    by (rule stop_exists[OF assms])
next
  fix k status js
  assume H: "1 \<le> k \<and> k \<le> maxA \<and> (\<forall>i. 1 \<le> i \<and> i < k \<longrightarrow> transient (fetch i))
               \<and> (\<not> transient (fetch k) \<or> k = maxA)"
     and R: "fetch k = Response status js"
  from H have "fetchJsonWithRetry_loop fetch maxA baseD 1 None = (settled (fetch k), backoff baseD 1 k)"
    by (intro loop_run) auto
  with R show "fetchJsonWithRetry fetch \<lparr>maxAttempts = Some maxA, baseDelayMs = Some baseD\<rparr>
                 = (\<lparr>fr_ok = (200 \<le> status \<and> status \<le> 299), fr_status = status, fr_json = js\<rparr>,
                    backoff baseD 1 k)"
    by (simp add: fetchJsonWithRetry_def settled_def)
next
  fix k e
  assume H: "1 \<le> k \<and> k \<le> maxA \<and> (\<forall>i. 1 \<le> i \<and> i < k \<longrightarrow> transient (fetch i))
               \<and> (\<not> transient (fetch k) \<or> k = maxA)"
     and N: "fetch k = NetworkError e"
  from H N show "k = maxA" by (simp add: transient_def)
next
  fix k e
  assume H: "1 \<le> k \<and> k \<le> maxA \<and> (\<forall>i. 1 \<le> i \<and> i < k \<longrightarrow> transient (fetch i))
               \<and> (\<not> transient (fetch k) \<or> k = maxA)"
     and N: "fetch k = NetworkError e"
  from H have "fetchJsonWithRetry_loop fetch maxA baseD 1 None = (settled (fetch k), backoff baseD 1 k)"
    by (intro loop_run) auto
  with N show "fetchJsonWithRetry fetch \<lparr>maxAttempts = Some maxA, baseDelayMs = Some baseD\<rparr>
                 = (\<lparr>fr_ok = False, fr_status = 0,
                     fr_json = JObj [(''ok'', JBool False), (''error'', JStr e)]\<rparr>,
                    backoff baseD 1 k)"
    by (simp add: fetchJsonWithRetry_def settled_def)
next
  fix k
  assume H: "1 \<le> k \<and> k \<le> maxA \<and> (\<forall>i. 1 \<le> i \<and> i < k \<longrightarrow> transient (fetch i))
               \<and> (\<not> transient (fetch k) \<or> k = maxA)"
     and T: "transient (fetch k)"
  from H have "fetchJsonWithRetry_loop fetch maxA baseD 1 None = (settled (fetch k), backoff baseD 1 k)"
    by (intro loop_run) auto
  moreover from T have "\<not> fr_ok (settled (fetch k))"
    by (auto simp: transient_def settled_def split: fetch_outcome.splits)
  ultimately
  show "\<not> fr_ok (fst (fetchJsonWithRetry fetch \<lparr>maxAttempts = Some maxA, baseDelayMs = Some baseD\<rparr>))"
    by (simp add: fetchJsonWithRetry_def)
qed

theorem fetchJsonWithRetry_policy_witness:
  "1 \<le> (6::nat) \<and> 1 \<le> (3::nat) \<and> (3::nat) \<le> 6
   \<and> transient (sample_fetch 1) \<and> transient (sample_fetch 2) \<and> \<not> transient (sample_fetch 3)
   \<and> fetchJsonWithRetry sample_fetch \<lparr>maxAttempts = Some 6, baseDelayMs = Some 800\<rparr>
       = (\<lparr>fr_ok = True, fr_status = 200,
           fr_json = JObj [(''ok'', JBool True), (''ticketId'', JStr token_new)]\<rparr>,
          [Attempt 1, Sleep 800, Attempt 2, Sleep 1600, Attempt 3])
   \<and> transient (down_fetch 1) \<and> transient (down_fetch 2) \<and> transient (down_fetch 3)
   \<and> transient (down_fetch 4) \<and> transient (down_fetch 5) \<and> transient (down_fetch 6)
   \<and> fetchJsonWithRetry down_fetch \<lparr>maxAttempts = Some 6, baseDelayMs = Some 800\<rparr>
       = (\<lparr>fr_ok = False, fr_status = 0,
           fr_json = JObj [(''ok'', JBool False), (''error'', JStr ''fetch failed'')]\<rparr>,
          [Attempt 1, Sleep 800, Attempt 2, Sleep 1600, Attempt 3, Sleep 3200, Attempt 4, Sleep 6400,
           Attempt 5, Sleep 12800, Attempt 6])
   \<and> transient (busy_fetch 1) \<and> transient (busy_fetch 2) \<and> transient (busy_fetch 3)
   \<and> fetchJsonWithRetry busy_fetch \<lparr>maxAttempts = Some 3, baseDelayMs = Some 100\<rparr>
       = (\<lparr>fr_ok = False, fr_status = 503, fr_json = JObj [(''error'', JStr ''busy'')]\<rparr>,
          [Attempt 1, Sleep 100, Attempt 2, Sleep 200, Attempt 3])
   \<and> \<not> transient (rejecting_fetch 1)
   \<and> fetchJsonWithRetry rejecting_fetch \<lparr>maxAttempts = Some 6, baseDelayMs = Some 800\<rparr>
       = (\<lparr>fr_ok = False, fr_status = 400,
           fr_json = JObj [(''ok'', JBool False), (''error'', JStr ''Invalid ticketTypeId'')]\<rparr>,
          [Attempt 1])"
proof -
  have h6: "1 \<le> (6::nat)" and h3: "1 \<le> (3::nat)" by simp_all
  have t1: "transient (sample_fetch 1) \<and> transient (sample_fetch 2) \<and> \<not> transient (sample_fetch 3)"
    by (simp add: sample_fetch_def transient_def)
  have s1: "\<forall>i. 1 \<le> i \<and> i < 3 \<longrightarrow> transient (sample_fetch i)"
  proof (intro allI impI)
    fix i :: nat assume "1 \<le> i \<and> i < 3"
    then have "i = 1 \<or> i = 2" by arith
    with t1 show "transient (sample_fetch i)" by auto
  qed
  have st1: "1 \<le> (3::nat) \<and> (3::nat) \<le> 6 \<and> (\<forall>i. 1 \<le> i \<and> i < 3 \<longrightarrow> transient (sample_fetch i))
             \<and> (\<not> transient (sample_fetch 3) \<or> (3::nat) = 6)"
    using s1 t1 by simp
  have r1: "sample_fetch 3 = Response 200 (JObj [(''ok'', JBool True), (''ticketId'', JStr token_new)])"
    by (simp add: sample_fetch_def)
  have b1: "backoff 800 1 3 = [Attempt 1, Sleep 800, Attempt 2, Sleep 1600, Attempt 3]"
    by code_simp
  have A: "fetchJsonWithRetry sample_fetch \<lparr>maxAttempts = Some 6, baseDelayMs = Some 800\<rparr>
       = (\<lparr>fr_ok = True, fr_status = 200,
           fr_json = JObj [(''ok'', JBool True), (''ticketId'', JStr token_new)]\<rparr>,
          backoff 800 1 3)"
    using conjunct1[OF fetchJsonWithRetry_policy[OF h6, of sample_fetch 800], rule_format, OF st1] r1
    by simp
  have t2: "\<forall>i. transient (down_fetch i)" by (simp add: down_fetch_def transient_def)
  have st2: "1 \<le> (6::nat) \<and> (6::nat) \<le> 6 \<and> (\<forall>i. 1 \<le> i \<and> i < 6 \<longrightarrow> transient (down_fetch i))
             \<and> (\<not> transient (down_fetch 6) \<or> (6::nat) = 6)"
    using t2 by simp
  have r2: "down_fetch 6 = NetworkError ''fetch failed''" by (simp add: down_fetch_def)
  have b2: "backoff 800 1 6 = [Attempt 1, Sleep 800, Attempt 2, Sleep 1600, Attempt 3, Sleep 3200,
             Attempt 4, Sleep 6400, Attempt 5, Sleep 12800, Attempt 6]"
    by code_simp
  have B: "fetchJsonWithRetry down_fetch \<lparr>maxAttempts = Some 6, baseDelayMs = Some 800\<rparr>
       = (\<lparr>fr_ok = False, fr_status = 0,
           fr_json = JObj [(''ok'', JBool False), (''error'', JStr ''fetch failed'')]\<rparr>,
          backoff 800 1 6)"
    using conjunct1[OF fetchJsonWithRetry_policy[OF h6, of down_fetch 800], rule_format, OF st2] r2
    by simp
  have t3: "\<forall>i. transient (busy_fetch i)" by (simp add: busy_fetch_def transient_def)
  have st3: "1 \<le> (3::nat) \<and> (3::nat) \<le> 3 \<and> (\<forall>i. 1 \<le> i \<and> i < 3 \<longrightarrow> transient (busy_fetch i))
             \<and> (\<not> transient (busy_fetch 3) \<or> (3::nat) = 3)"
    using t3 by simp
  have r3: "busy_fetch 3 = Response 503 (JObj [(''error'', JStr ''busy'')])" by (simp add: busy_fetch_def)
  have b3: "backoff 100 1 3 = [Attempt 1, Sleep 100, Attempt 2, Sleep 200, Attempt 3]"
    by code_simp
  have C: "fetchJsonWithRetry busy_fetch \<lparr>maxAttempts = Some 3, baseDelayMs = Some 100\<rparr>
       = (\<lparr>fr_ok = False, fr_status = 503, fr_json = JObj [(''error'', JStr ''busy'')]\<rparr>,
          backoff 100 1 3)"
    using conjunct1[OF fetchJsonWithRetry_policy[OF h3, of busy_fetch 100], rule_format, OF st3] r3
    by simp
  have t4: "\<not> transient (rejecting_fetch 1)" by (simp add: rejecting_fetch_def transient_def)
  have st4: "1 \<le> (1::nat) \<and> (1::nat) \<le> 6 \<and> (\<forall>i. 1 \<le> i \<and> i < 1 \<longrightarrow> transient (rejecting_fetch i))
             \<and> (\<not> transient (rejecting_fetch 1) \<or> (1::nat) = 6)"
    using t4 by simp
  have r4: "rejecting_fetch 1 = Response 400 (JObj [(''ok'', JBool False), (''error'', JStr ''Invalid ticketTypeId'')])"
    by (simp add: rejecting_fetch_def)
  have b4: "backoff 800 1 1 = [Attempt 1]" by (simp add: backoff_refl)
  have D: "fetchJsonWithRetry rejecting_fetch \<lparr>maxAttempts = Some 6, baseDelayMs = Some 800\<rparr>
       = (\<lparr>fr_ok = False, fr_status = 400,
           fr_json = JObj [(''ok'', JBool False), (''error'', JStr ''Invalid ticketTypeId'')]\<rparr>,
          backoff 800 1 1)"
    using conjunct1[OF fetchJsonWithRetry_policy[OF h6, of rejecting_fetch 800], rule_format, OF st4] r4
    by simp
  have ts: "transient (down_fetch 1) \<and> transient (down_fetch 2) \<and> transient (down_fetch 3)
            \<and> transient (down_fetch 4) \<and> transient (down_fetch 5) \<and> transient (down_fetch 6)
            \<and> transient (busy_fetch 1) \<and> transient (busy_fetch 2) \<and> transient (busy_fetch 3)"
    using t2 t3 by simp
  from t1 ts t4 A B C D b1 b2 b3 b4 show ?thesis by simp
qed

section \<open>Administrative burn\<close>

lemma set_uniq: "set (uniq seen xs) = set xs - set seen"
  by (induction seen xs rule: uniq.induct) auto

lemma distinct_uniq_aux: "distinct (uniq seen xs) \<and> set (uniq seen xs) \<inter> set seen = {}"
  by (induction seen xs rule: uniq.induct) (auto simp: set_uniq)

lemma distinct_uniq: "distinct (uniq seen xs)"
  using distinct_uniq_aux by blast

lemma set_normalizeTicketIds:
  "set (normalizeTicketIds input) = {x \<in> trim ` set (pushed_ids input). uuid_test x}"
  by (auto simp: normalizeTicketIds_def set_uniq)

lemma uuid_array_in_ok:
  assumes "\<forall>s \<in> set xs. uuid_in s \<noteq> None"
  shows "uuid_array_in uuid_in xs = Inr (map (\<lambda>s. the (uuid_in s)) xs)"
  using assms by (induction xs) auto

lemma set_map_filter: "set (List.map_filter f xs) = {y. \<exists>x \<in> set xs. f x = Some y}"
  by (induction xs) (auto simp: List.map_filter_simps split: option.splits)

lemma burn_targets_normalized:
  assumes "\<forall>s. uuid_test s \<longrightarrow> uuid_in s \<noteq> None"
  shows "set (map (\<lambda>s. the (uuid_in s)) (normalizeTicketIds input)) = set (burn_targets uuid_in input)"
  using assms
  by (force simp: burn_targets_def set_map_filter set_normalizeTicketIds image_iff)

lemma length_filter_distinct:
  assumes "distinct (map f xs)"
  shows "length (filter (\<lambda>x. f x \<in> A) xs) = card (A \<inter> f ` set xs)"
proof -
  from assms have d: "distinct xs" and inj: "inj_on f (set xs)"
    by (auto simp: distinct_map)
  have "card (set (filter (\<lambda>x. f x \<in> A) xs)) = length (filter (\<lambda>x. f x \<in> A) xs)"
    by (rule distinct_card) (simp add: d)
  then have "length (filter (\<lambda>x. f x \<in> A) xs) = card (set (filter (\<lambda>x. f x \<in> A) xs))"
    by (rule sym)
  also have "\<dots> = card (f ` set (filter (\<lambda>x. f x \<in> A) xs))"
    by (rule card_image[symmetric]) (rule inj_on_subset[OF inj], auto)
  also have "f ` set (filter (\<lambda>x. f x \<in> A) xs) = A \<inter> f ` set xs" by auto
  finally show ?thesis .
qed

lemma update_tickets_burn_tables:
  "update_tickets_burn db us now = (db', rows) \<Longrightarrow>
     tickets db' = map (\<lambda>t. if t_id t \<in> set us then burned now t else t) (tickets db)
     \<and> ticket_types db' = ticket_types db \<and> events db' = events db
     \<and> scanner_keys db' = scanner_keys db
     \<and> length rows = length (filter (\<lambda>t. t_id t \<in> set us) (tickets db))"
  by (auto simp: update_tickets_burn_def)

text \<open>
  C5, as the code has it. For an authorized burn request with at least one well-formed
  token, over a store with unique ticket ids that accepts every token of the canonical
  shape: malformed entries are dropped and duplicates collapsed before the update; the
  \<open>burned\<close> count is the number of distinct well-formed tokens of the input that are ids of
  ticket rows; every such row, used before or not, is left with \<open>used = true\<close>, \<open>used_at\<close> set
  to the time of the burn and \<open>used_by_scanner_key_id\<close> set to null; the other rows are unchanged.
\<close>

theorem burn_POST_counts_distinct_tokens:
  assumes auth: "requireAdminAuth env (br_authorization req) = None"
      and accepts: "\<forall>s. uuid_test s \<longrightarrow> uuid_in s \<noteq> None"
      and uniq_ids: "distinct (map t_id (tickets db))"
      and some: "normalizeTicketIds (nullish_or (br_ticketIds req) (br_ticketId req)) \<noteq> []"
  shows "(\<exists>rows. burn_POST env uuid_in db now req =
           (BOk (card (set (burn_targets uuid_in (nullish_or (br_ticketIds req) (br_ticketId req)))
                        \<inter> t_id ` set (tickets db))) rows,
            db\<lparr>tickets := map (\<lambda>t. if t_id t \<in> set (burn_targets uuid_in (nullish_or (br_ticketIds req) (br_ticketId req)))
                                   then burned now t else t) (tickets db)\<rparr>,
            [UpdateTicketsBurn (normalizeTicketIds (nullish_or (br_ticketIds req) (br_ticketId req)))]))
       \<and> distinct (normalizeTicketIds (nullish_or (br_ticketIds req) (br_ticketId req)))
       \<and> set (normalizeTicketIds (nullish_or (br_ticketIds req) (br_ticketId req)))
           = {x \<in> trim ` set (pushed_ids (nullish_or (br_ticketIds req) (br_ticketId req))). uuid_test x}
       \<and> (\<forall>t. t_used (burned now t) \<and> t_used_at (burned now t) = Some now
                \<and> t_used_by_scanner_key_id (burned now t) = None \<and> t_id (burned now t) = t_id t)"
proof -
  let ?input = "nullish_or (br_ticketIds req) (br_ticketId req)"
  let ?ids = "normalizeTicketIds ?input"
  let ?us = "map (\<lambda>s. the (uuid_in s)) ?ids"
  have "\<forall>s \<in> set ?ids. uuid_in s \<noteq> None"
    using accepts by (auto simp: set_normalizeTicketIds)
  then have cast: "uuid_array_in uuid_in ?ids = Inr ?us" by (rule uuid_array_in_ok)
  have tg: "set ?us = set (burn_targets uuid_in ?input)"
    using accepts by (rule burn_targets_normalized)
  have len: "length (filter (\<lambda>t. t_id t \<in> set ?us) (tickets db))
             = card (set (burn_targets uuid_in ?input) \<inter> t_id ` set (tickets db))"
    using length_filter_distinct[OF uniq_ids, of "set ?us"] tg by simp
  from some have ne: "length ?ids \<noteq> 0" by simp
  have run: "\<exists>rows. burn_POST env uuid_in db now req =
           (BOk (card (set (burn_targets uuid_in ?input) \<inter> t_id ` set (tickets db))) rows,
            db\<lparr>tickets := map (\<lambda>t. if t_id t \<in> set (burn_targets uuid_in ?input)
                                   then burned now t else t) (tickets db)\<rparr>,
            [UpdateTicketsBurn ?ids])"
    unfolding burn_POST_def Let_def
    using auth ne cast len tg
    by (simp add: update_tickets_burn_def)
  have d: "distinct ?ids" by (simp add: normalizeTicketIds_def distinct_uniq)
  have b: "\<forall>t. t_used (burned now t) \<and> t_used_at (burned now t) = Some now
                \<and> t_used_by_scanner_key_id (burned now t) = None \<and> t_id (burned now t) = t_id t"
    by (simp add: burned_def)
  from run d set_normalizeTicketIds[of ?input] b show ?thesis by blast
qed

theorem burn_POST_counts_distinct_tokens_witness:
  "requireAdminAuth sample_env (br_authorization sample_burn_request) = None
   \<and> distinct (map t_id (tickets sample_store))
   \<and> normalizeTicketIds (nullish_or (br_ticketIds sample_burn_request) (br_ticketId sample_burn_request))
         = [token_b, token_new, token_a]
   \<and> fst (burn_POST sample_env sample_uuid_in sample_store 9 sample_burn_request)
         = BOk 2 [(token_a, True), (token_b, True)]
   \<and> card (set (burn_targets sample_uuid_in
                 (nullish_or (br_ticketIds sample_burn_request) (br_ticketId sample_burn_request)))
             \<inter> t_id ` set (tickets sample_store)) = 2"
proof -
  have h1: "requireAdminAuth sample_env (br_authorization sample_burn_request) = None"
    by code_simp
  have h2: "\<forall>s. uuid_test s \<longrightarrow> sample_uuid_in s \<noteq> None"
    by (simp add: sample_uuid_in_def)
  have h3: "distinct (map t_id (tickets sample_store))"
    by code_simp
  have h4: "normalizeTicketIds (nullish_or (br_ticketIds sample_burn_request) (br_ticketId sample_burn_request))
         = [token_b, token_new, token_a]"
    by code_simp
  then have h4': "normalizeTicketIds (nullish_or (br_ticketIds sample_burn_request) (br_ticketId sample_burn_request)) \<noteq> []"
    by simp
  have ev: "fst (burn_POST sample_env sample_uuid_in sample_store 9 sample_burn_request)
         = BOk 2 [(token_a, True), (token_b, True)]"
    by code_simp
  from burn_POST_counts_distinct_tokens[OF h1 h2 h3 h4', of 9] ev
  have "card (set (burn_targets sample_uuid_in
                 (nullish_or (br_ticketIds sample_burn_request) (br_ticketId sample_burn_request)))
             \<inter> t_id ` set (tickets sample_store)) = 2"
    by auto
  with h1 h3 h4 ev show ?thesis by blast
qed

text \<open>
  The claim as stated fails where it says that burning a used ticket does not change
  \<open>used_by_key_id\<close> to null: the second ticket of the sample store was redeemed by
  \<open>key1\<close>, and after the burn its \<open>used_by_scanner_key_id\<close> is null.
\<close>

theorem burn_clears_scanner_key:
  "t_id (tickets sample_store ! 1) = token_b
   \<and> t_used (tickets sample_store ! 1)
   \<and> t_used_by_scanner_key_id (tickets sample_store ! 1) = Some ''key1''
   \<and> fst (burn_POST sample_env sample_uuid_in sample_store 9 sample_burn_request)
         = BOk 2 [(token_a, True), (token_b, True)]
   \<and> t_id (tickets (fst (snd (burn_POST sample_env sample_uuid_in sample_store 9 sample_burn_request))) ! 1) = token_b
   \<and> t_used (tickets (fst (snd (burn_POST sample_env sample_uuid_in sample_store 9 sample_burn_request))) ! 1)
   \<and> t_used_by_scanner_key_id
         (tickets (fst (snd (burn_POST sample_env sample_uuid_in sample_store 9 sample_burn_request))) ! 1) = None"
  by code_simp

section \<open>State invariants of the three routes\<close>

lemma validate_POST_store:
  "fst (snd (validate_POST sha256 uuid_in db now req)) = db \<or>
   (\<exists>u ev k. fst (snd (validate_POST sha256 uuid_in db now req)) = fst (update_ticket_used db u ev k now))"
  unfolding validate_POST_def Let_def
  by (auto split: option.splits prod.splits) (metis fst_conv)+

lemma burn_POST_store:
  "fst (snd (burn_POST env uuid_in db now req)) = db \<or>
   (\<exists>us. fst (snd (burn_POST env uuid_in db now req)) = fst (update_tickets_burn db us now))"
  unfolding burn_POST_def Let_def
  by (auto split: option.splits prod.splits sum.splits) (metis fst_conv)+

lemma issue_POST_store:
  "fst (snd (issue_POST env ext uuid_in db now new_id req)) = db \<or>
   (\<exists>tid email. fst (snd (issue_POST env ext uuid_in db now new_id req))
        = fst (insert_ticket db new_id now tid email (ir_name req)))"
  unfolding issue_POST_def Let_def
  by (auto split: option.splits prod.splits if_splits) (metis fst_conv)+

lemma ticket_inv_redeemed: "ticket_inv (redeemed k now t)"
  by (simp add: ticket_inv_def redeemed_def)

lemma ticket_stamped_redeemed: "ticket_stamped (redeemed k now t)"
  by (simp add: ticket_stamped_def redeemed_def)

lemma ticket_stamped_burned: "ticket_stamped (burned now t)"
  by (simp add: ticket_stamped_def burned_def)

lemma store_inv_update:
  "store_inv db \<Longrightarrow> store_inv (fst (update_ticket_used db u ev k now))"
  by (auto simp: store_inv_def update_ticket_used_def list_all_iff ticket_inv_redeemed)

lemma store_stamped_update:
  "store_stamped db \<Longrightarrow> store_stamped (fst (update_ticket_used db u ev k now))"
  by (auto simp: store_stamped_def update_ticket_used_def list_all_iff ticket_stamped_redeemed)

lemma store_stamped_burn:
  "store_stamped db \<Longrightarrow> store_stamped (fst (update_tickets_burn db us now))"
  by (auto simp: store_stamped_def update_tickets_burn_def list_all_iff ticket_stamped_burned)

lemma store_inv_insert:
  "store_inv db \<Longrightarrow> store_inv (fst (insert_ticket db new_id now tid email name))"
  by (auto simp: store_inv_def insert_ticket_def Let_def list_all_iff ticket_inv_def)

lemma store_stamped_insert:
  "store_stamped db \<Longrightarrow> store_stamped (fst (insert_ticket db new_id now tid email name))"
  by (auto simp: store_stamped_def insert_ticket_def Let_def list_all_iff ticket_stamped_def)

lemma used_kept_refl: "used_kept db db"
  by (simp add: used_kept_def list_all2_same)

lemma used_kept_map:
  assumes "\<And>t. t_id (f t) = t_id t \<and> (t_used t \<longrightarrow> t_used (f t))"
  shows "used_kept db (db\<lparr>tickets := map f (tickets db)\<rparr>)"
  using assms by (simp add: used_kept_def list_all2_map2 list_all2_same)

lemma used_kept_update: "used_kept db (fst (update_ticket_used db u ev k now))"
  unfolding update_ticket_used_def fst_conv
  by (rule used_kept_map) (simp add: redeemed_def)

lemma used_kept_burn: "used_kept db (fst (update_tickets_burn db us now))"
  unfolding update_tickets_burn_def fst_conv
  by (rule used_kept_map) (simp add: burned_def)

lemma used_kept_insert: "used_kept db (fst (insert_ticket db new_id now tid email name))"
  by (simp add: used_kept_def insert_ticket_def Let_def list_all2_same)

lemma burn_changed_rows:
  assumes "t' \<in> set (tickets (fst (update_tickets_burn db us now)))" and "t' \<notin> set (tickets db)"
  shows "t_used t' \<and> t_used_at t' = Some now \<and> t_used_by_scanner_key_id t' = None"
  using assms by (auto simp: update_tickets_burn_def burned_def)

text \<open>
  C4, as the code has it. Whatever the request: the validate and issue routes keep the
  invariant that \<open>used_at\<close> and \<open>used_by_scanner_key_id\<close> are non-null exactly when \<open>used\<close> is
  true; all three routes keep the weaker invariant that \<open>used_at\<close> is non-null exactly when
  \<open>used\<close> is true and that \<open>used_by_scanner_key_id\<close> is non-null only then; no route removes a
  ticket or turns \<open>used\<close> from true to false; and every row the burn route changes ends
  up used, stamped with the time of the burn, with \<open>used_by_scanner_key_id\<close> null.
\<close>

theorem ticket_state_invariants:
  "(store_inv db \<longrightarrow> store_inv (fst (snd (validate_POST sha256 uuid_in db now vreq))))
   \<and> (store_inv db \<longrightarrow> store_inv (fst (snd (issue_POST env ext uuid_in db now new_id ireq))))
   \<and> (store_stamped db \<longrightarrow>
         store_stamped (fst (snd (validate_POST sha256 uuid_in db now vreq)))
         \<and> store_stamped (fst (snd (issue_POST env ext uuid_in db now new_id ireq)))
         \<and> store_stamped (fst (snd (burn_POST env uuid_in db now breq))))
   \<and> used_kept db (fst (snd (validate_POST sha256 uuid_in db now vreq)))
   \<and> used_kept db (fst (snd (issue_POST env ext uuid_in db now new_id ireq)))
   \<and> used_kept db (fst (snd (burn_POST env uuid_in db now breq)))
   \<and> (\<forall>t' \<in> set (tickets (fst (snd (burn_POST env uuid_in db now breq)))).
         t' \<notin> set (tickets db) \<longrightarrow>
         t_used t' \<and> t_used_at t' = Some now \<and> t_used_by_scanner_key_id t' = None)"
proof -
  note v = validate_POST_store[of sha256 uuid_in db now vreq]
  note i = issue_POST_store[of env ext uuid_in db now new_id ireq]
  note b = burn_POST_store[of env uuid_in db now breq]
  have 1: "store_inv db \<longrightarrow> store_inv (fst (snd (validate_POST sha256 uuid_in db now vreq)))"
    using v by (auto simp: store_inv_update)
  have 2: "store_inv db \<longrightarrow> store_inv (fst (snd (issue_POST env ext uuid_in db now new_id ireq)))"
    using i by (auto simp: store_inv_insert)
  have 3: "store_stamped db \<longrightarrow> store_stamped (fst (snd (validate_POST sha256 uuid_in db now vreq)))"
    using v by (auto simp: store_stamped_update)
  have 4: "store_stamped db \<longrightarrow> store_stamped (fst (snd (issue_POST env ext uuid_in db now new_id ireq)))"
    using i by (auto simp: store_stamped_insert)
  have 5: "store_stamped db \<longrightarrow> store_stamped (fst (snd (burn_POST env uuid_in db now breq)))"
    using b by (auto simp: store_stamped_burn)
  have 6: "used_kept db (fst (snd (validate_POST sha256 uuid_in db now vreq)))"
    using v by (auto simp: used_kept_refl used_kept_update)
  have 7: "used_kept db (fst (snd (issue_POST env ext uuid_in db now new_id ireq)))"
    using i by (auto simp: used_kept_refl used_kept_insert)
  have 8: "used_kept db (fst (snd (burn_POST env uuid_in db now breq)))"
    using b by (auto simp: used_kept_refl used_kept_burn)
  have 9: "\<forall>t' \<in> set (tickets (fst (snd (burn_POST env uuid_in db now breq)))).
         t' \<notin> set (tickets db) \<longrightarrow>
         t_used t' \<and> t_used_at t' = Some now \<and> t_used_by_scanner_key_id t' = None"
    using b burn_changed_rows[of _ db _ now] by auto
  from 1 2 3 4 5 6 7 8 9 show ?thesis by blast
qed

theorem ticket_state_invariants_witness:
  "store_inv sample_store
   \<and> store_inv (fst (snd (validate_POST sample_digest sample_uuid_in sample_store 7 sample_validate_request)))
   \<and> store_inv (fst (snd (issue_POST sample_env sample_mailer sample_uuid_in sample_store 7 token_new
                              sample_issue_request)))
   \<and> tickets (fst (snd (validate_POST sample_digest sample_uuid_in sample_store 7 sample_validate_request)))
       \<noteq> tickets sample_store
   \<and> map t_used (tickets sample_store) = [False, True, False]
   \<and> map t_used (tickets (fst (snd (burn_POST sample_env sample_uuid_in sample_store 7 sample_burn_request))))
       = [True, True, False]
   \<and> map t_used_at (tickets (fst (snd (burn_POST sample_env sample_uuid_in sample_store 7 sample_burn_request))))
       = [Some 7, Some 7, None]
   \<and> map t_used_by_scanner_key_id
         (tickets (fst (snd (burn_POST sample_env sample_uuid_in sample_store 7 sample_burn_request))))
       = [None, None, None]"
proof -
  let ?b = "fst (snd (burn_POST sample_env sample_uuid_in sample_store 7 sample_burn_request))"
  have h1: "store_inv sample_store" by code_simp
  have h2: "store_stamped sample_store" by code_simp
  have h3: "tickets (fst (snd (validate_POST sample_digest sample_uuid_in sample_store 7 sample_validate_request)))
       \<noteq> tickets sample_store"
    by code_simp
  have u0: "map t_used (tickets sample_store) = [False, True, False]" by code_simp
  have u1: "map t_used (tickets ?b) = [True, True, False]" by code_simp
  have u2: "map t_used_at (tickets ?b) = [Some 7, Some 7, None]" by code_simp
  have u3: "map t_used_by_scanner_key_id (tickets ?b) = [None, None, None]" by code_simp
  from ticket_state_invariants[of sample_store sample_digest sample_uuid_in 7 sample_validate_request
         sample_env sample_mailer token_new sample_issue_request sample_burn_request] h1 h2
  have "store_inv (fst (snd (validate_POST sample_digest sample_uuid_in sample_store 7 sample_validate_request)))
      \<and> store_inv (fst (snd (issue_POST sample_env sample_mailer sample_uuid_in sample_store 7 token_new
                                 sample_issue_request)))
      \<and> store_stamped ?b \<and> used_kept sample_store ?b"
    by blast
  with h1 h3 u0 u1 u2 u3 show ?thesis by blast
qed

text \<open>
  The invariant as stated fails on the burn route: the sample store satisfies it, and after
  a burn of its unused first ticket that ticket is used with \<open>used_by_scanner_key_id\<close> null.
\<close>

theorem burn_breaks_key_invariant:
  "store_inv sample_store
   \<and> \<not> store_inv (fst (snd (burn_POST sample_env sample_uuid_in sample_store 9 sample_burn_request)))
   \<and> t_used (tickets (fst (snd (burn_POST sample_env sample_uuid_in sample_store 9 sample_burn_request))) ! 0)
   \<and> t_used_by_scanner_key_id
         (tickets (fst (snd (burn_POST sample_env sample_uuid_in sample_store 9 sample_burn_request))) ! 0) = None"
  by code_simp

section \<open>Redemption\<close>

lemma in_tickets_joined:
  "(t, tt, e) \<in> set (tickets_joined db) \<longleftrightarrow>
     t \<in> set (tickets db) \<and> tt \<in> set (ticket_types db) \<and> e \<in> set (events db)
     \<and> tt_id tt = t_ticket_type_id t \<and> e_id e = tt_event_id tt"
  by (auto simp: tickets_joined_def)

lemma loadTicketRow_None:
  "loadTicketRow db u ev = None \<longleftrightarrow>
     \<not> (\<exists>t tt e. (t, tt, e) \<in> set (tickets_joined db) \<and> t_id t = u \<and> tt_event_id tt = ev)"
proof -
  let ?rows = "filter (\<lambda>(t, tt, e). t_id t = u \<and> tt_event_id tt = ev) (tickets_joined db)"
  have "loadTicketRow db u ev = None \<longleftrightarrow> ?rows = []"
    by (auto simp: loadTicketRow_def split: list.splits)
  also have "\<dots> \<longleftrightarrow> \<not> (\<exists>t tt e. (t, tt, e) \<in> set (tickets_joined db) \<and> t_id t = u \<and> tt_event_id tt = ev)"
    by (auto simp: filter_empty_conv)
  finally show ?thesis .
qed

lemma loadTicketRow_Some:
  assumes "loadTicketRow db u ev = Some row"
  shows "\<exists>t tt e. (t, tt, e) \<in> set (tickets_joined db) \<and> t_id t = u \<and> tt_event_id tt = ev
                   \<and> row = joined_row db t tt e"
proof -
  let ?P = "\<lambda>(t, tt, e). t_id t = u \<and> tt_event_id tt = ev"
  from assms obtain x rest where r: "filter ?P (tickets_joined db) = x # rest"
      and row: "row = (case x of (t, tt, e) \<Rightarrow> joined_row db t tt e)"
    by (auto simp: loadTicketRow_def split: list.splits)
  from r have "x \<in> set (filter ?P (tickets_joined db))" by simp
  then have x: "x \<in> set (tickets_joined db)" "?P x" by simp_all
  obtain t tt e where xe: "x = (t, tt, e)" by (cases x)
  with x row show ?thesis by auto
qed

lemma load_in_scope:
  assumes ev: "list_ex (\<lambda>e. e_id e = ev) (events db)"
  shows "loadTicketRow db u ev \<noteq> None \<longleftrightarrow>
           (\<exists>t \<in> set (tickets db). t_id t = u \<and> type_in_event db (t_ticket_type_id t) ev)"
proof
  assume "loadTicketRow db u ev \<noteq> None"
  then obtain t tt e where "(t, tt, e) \<in> set (tickets_joined db)" "t_id t = u" "tt_event_id tt = ev"
    unfolding loadTicketRow_None by blast
  then have "t \<in> set (tickets db)" "t_id t = u" "tt \<in> set (ticket_types db)"
      "t_ticket_type_id t = tt_id tt" "tt_event_id tt = ev"
    by (simp_all add: in_tickets_joined)
  then show "\<exists>t \<in> set (tickets db). t_id t = u \<and> type_in_event db (t_ticket_type_id t) ev"
    unfolding type_in_event_def list_ex_iff by blast
next
  assume "\<exists>t \<in> set (tickets db). t_id t = u \<and> type_in_event db (t_ticket_type_id t) ev"
  then obtain t tt where t: "t \<in> set (tickets db)" "t_id t = u" "tt \<in> set (ticket_types db)"
      "t_ticket_type_id t = tt_id tt" "tt_event_id tt = ev"
    unfolding type_in_event_def list_ex_iff by blast
  from ev obtain e where e: "e \<in> set (events db)" "e_id e = ev" by (auto simp: list_ex_iff)
  from t e have "(t, tt, e) \<in> set (tickets_joined db)" by (simp add: in_tickets_joined)
  with t show "loadTicketRow db u ev \<noteq> None"
    unfolding loadTicketRow_None by blast
qed

lemma unique_id:
  assumes "distinct (map t_id ts)" "t \<in> set ts" "t' \<in> set ts" "t_id t' = t_id t"
  shows "t' = t"
  using assms by (meson distinct_map inj_onD)

lemma update_none:
  assumes "\<forall>t \<in> set (tickets db). \<not> redeemable db u ev t"
  shows "update_ticket_used db u ev k now = (db, 0)"
proof -
  have "map (\<lambda>t. if redeemable db u ev t then redeemed k now t else t) (tickets db) = tickets db"
    using assms by (simp add: map_idI)
  moreover have "filter (redeemable db u ev) (tickets db) = []"
    using assms by (simp add: filter_empty_conv)
  ultimately show ?thesis by (simp add: update_ticket_used_def)
qed

lemma update_one:
  assumes d: "distinct (map t_id (tickets db))" and t: "t \<in> set (tickets db)" and r: "redeemable db u ev t"
  shows "update_ticket_used db u ev k now =
           (db\<lparr>tickets := map (\<lambda>t'. if t_id t' = u then redeemed k now t' else t') (tickets db)\<rparr>, 1)"
proof -
  from r have idt: "t_id t = u" by (simp add: redeemable_def)
  have only: "\<And>t'. t' \<in> set (tickets db) \<Longrightarrow> t_id t' = u \<Longrightarrow> t' = t"
    using unique_id[OF d t] idt by simp
  have eq: "\<And>t'. t' \<in> set (tickets db) \<Longrightarrow> redeemable db u ev t' \<longleftrightarrow> t_id t' = u"
    using only r by (auto simp: redeemable_def)
  have m: "map (\<lambda>t'. if redeemable db u ev t' then redeemed k now t' else t') (tickets db)
         = map (\<lambda>t'. if t_id t' = u then redeemed k now t' else t') (tickets db)"
    using eq by (intro map_cong) auto
  have "filter (redeemable db u ev) (tickets db) = filter (\<lambda>t'. t_id t' \<in> {u}) (tickets db)"
    using eq by (intro filter_cong) auto
  moreover have "length (filter (\<lambda>t'. t_id t' \<in> {u}) (tickets db)) = card ({u} \<inter> t_id ` set (tickets db))"
  proof -
    from d have dd: "distinct (tickets db)" and inj: "inj_on t_id (set (tickets db))"
      by (auto simp: distinct_map)
    have "card (set (filter (\<lambda>x. t_id x \<in> {u}) (tickets db))) = length (filter (\<lambda>x. t_id x \<in> {u}) (tickets db))"
      by (rule distinct_card) (simp add: dd)
    moreover have "card (t_id ` set (filter (\<lambda>x. t_id x \<in> {u}) (tickets db)))
                 = card (set (filter (\<lambda>x. t_id x \<in> {u}) (tickets db)))"
      by (rule card_image) (rule inj_on_subset[OF inj], auto)
    moreover have "t_id ` set (filter (\<lambda>x. t_id x \<in> {u}) (tickets db)) = {u} \<inter> t_id ` set (tickets db)"
      by auto
    ultimately show ?thesis by simp
  qed
  moreover have "{u} \<inter> t_id ` set (tickets db) = {u}" using t idt by auto
  ultimately have "length (filter (redeemable db u ev) (tickets db)) = 1" by simp
  with m show ?thesis by (simp add: update_ticket_used_def)
qed

lemma validate_POST_authorized:
  assumes "bearer_token a = Some token"
      and "select_scanner_key db (digest token) now = Some key"
      and "ticketId \<noteq> []" and "uuid_in ticketId = Some u"
      and "update_ticket_used db u (sk_event_id key) (sk_id key) now = (db', n)"
  shows "validate_POST digest uuid_in db now \<lparr>vr_authorization = Some a, vr_ticketId = Some ticketId\<rparr> =
           ((if n = 1 then VOk VALID (loadTicketRow db' u (sk_event_id key))
             else (case loadTicketRow db' u (sk_event_id key) of
                     None \<Rightarrow> VOk NOT_FOUND None
                   | Some t \<Rightarrow> VOk ALREADY_USED (Some t))),
            db',
            [SelectScannerKey (digest token),
             UpdateTicketUsed ticketId (sk_event_id key) (sk_id key),
             SelectTicketRow ticketId (sk_event_id key)])"
  using assms by (simp add: validate_POST_def Let_def split: option.splits)

lemma validate_POST_convertible:
  assumes bearer: "bearer_token a = Some token"
      and key: "select_scanner_key db (digest token) now = Some key"
      and event: "list_ex (\<lambda>e. e_id e = sk_event_id key) (events db)"
      and uniq_ids: "distinct (map t_id (tickets db))"
      and tok: "ticketId \<noteq> []" "uuid_in ticketId = Some u"
      and out: "validate_POST digest uuid_in db now \<lparr>vr_authorization = Some a, vr_ticketId = Some ticketId\<rparr>
                  = (resp, db', queries)"
  shows "(\<forall>t \<in> set (tickets db).
            t_id t = u \<and> type_in_event db (t_ticket_type_id t) (sk_event_id key) \<and> \<not> t_used t \<longrightarrow>
              (\<exists>row. resp = VOk VALID (Some row) \<and> row_id row = u \<and> row_used row
                     \<and> row_used_at row = Some now \<and> row_used_by_scanner_key_id row = Some (sk_id key))
              \<and> db' = db\<lparr>tickets := map (\<lambda>t'. if t_id t' = u then redeemed (sk_id key) now t' else t')
                                        (tickets db)\<rparr>)
       \<and> (\<forall>t \<in> set (tickets db).
            t_id t = u \<and> type_in_event db (t_ticket_type_id t) (sk_event_id key) \<and> t_used t \<longrightarrow>
              (\<exists>row. resp = VOk ALREADY_USED (Some row) \<and> row_id row = u \<and> row_used row
                     \<and> row_used_at row = t_used_at t
                     \<and> row_used_by_scanner_key_id row = t_used_by_scanner_key_id t)
              \<and> db' = db)
       \<and> ((\<forall>t \<in> set (tickets db). t_id t = u \<longrightarrow> \<not> type_in_event db (t_ticket_type_id t) (sk_event_id key))
            \<longrightarrow> resp = VOk NOT_FOUND None \<and> db' = db)"
proof -
  let ?ev = "sk_event_id key" and ?k = "sk_id key"
  note run = validate_POST_authorized[where digest=digest and uuid_in=uuid_in, OF bearer key tok]
  have A: "\<forall>t \<in> set (tickets db).
            t_id t = u \<and> type_in_event db (t_ticket_type_id t) ?ev \<and> \<not> t_used t \<longrightarrow>
              (\<exists>row. resp = VOk VALID (Some row) \<and> row_id row = u \<and> row_used row
                     \<and> row_used_at row = Some now \<and> row_used_by_scanner_key_id row = Some ?k)
              \<and> db' = db\<lparr>tickets := map (\<lambda>t'. if t_id t' = u then redeemed ?k now t' else t')
                                        (tickets db)\<rparr>"
  proof (intro ballI impI)
    fix t
    assume t: "t \<in> set (tickets db)"
       and H: "t_id t = u \<and> type_in_event db (t_ticket_type_id t) ?ev \<and> \<not> t_used t"
    then have r: "redeemable db u ?ev t" by (simp add: redeemable_def)
    let ?db1 = "db\<lparr>tickets := map (\<lambda>t'. if t_id t' = u then redeemed ?k now t' else t') (tickets db)\<rparr>"
    have upd: "update_ticket_used db u ?ev ?k now = (?db1, 1)"
      by (rule update_one[OF uniq_ids t r])
    from run[OF upd] out have resp: "resp = VOk VALID (loadTicketRow ?db1 u ?ev)" and db': "db' = ?db1"
      by simp_all
    have ev1: "list_ex (\<lambda>e. e_id e = ?ev) (events ?db1)" using event by simp
    have "redeemed ?k now t \<in> set (tickets ?db1)" using t H by force
    moreover have "t_id (redeemed ?k now t) = u" using H by (simp add: redeemed_def)
    moreover have "type_in_event ?db1 (t_ticket_type_id (redeemed ?k now t)) ?ev"
      using H by (simp add: type_in_event_def redeemed_def)
    ultimately have "loadTicketRow ?db1 u ?ev \<noteq> None"
      unfolding load_in_scope[OF ev1] by blast
    then obtain row where row: "loadTicketRow ?db1 u ?ev = Some row" by auto
    from loadTicketRow_Some[OF row] obtain t1 tt e where
      j: "(t1, tt, e) \<in> set (tickets_joined ?db1)" "t_id t1 = u" and rj: "row = joined_row ?db1 t1 tt e"
      by blast
    from j have "t1 \<in> set (tickets ?db1)" by (simp add: in_tickets_joined)
    then obtain t0 where t0: "t0 \<in> set (tickets db)"
        and t1: "t1 = (if t_id t0 = u then redeemed ?k now t0 else t0)"
      by auto
    from t1 j(2) have "t_id t0 = u" by (auto simp: redeemed_def split: if_splits)
    with t1 have "t1 = redeemed ?k now t0" by simp
    with rj have "row_id row = u \<and> row_used row \<and> row_used_at row = Some now
                  \<and> row_used_by_scanner_key_id row = Some ?k"
      using \<open>t_id t0 = u\<close> by (simp add: joined_row_def redeemed_def)
    with resp row db'
    show "(\<exists>row. resp = VOk VALID (Some row) \<and> row_id row = u \<and> row_used row
                     \<and> row_used_at row = Some now \<and> row_used_by_scanner_key_id row = Some ?k)
              \<and> db' = ?db1"
      by simp
  qed
  have B: "\<forall>t \<in> set (tickets db).
            t_id t = u \<and> type_in_event db (t_ticket_type_id t) ?ev \<and> t_used t \<longrightarrow>
              (\<exists>row. resp = VOk ALREADY_USED (Some row) \<and> row_id row = u \<and> row_used row
                     \<and> row_used_at row = t_used_at t
                     \<and> row_used_by_scanner_key_id row = t_used_by_scanner_key_id t)
              \<and> db' = db"
  proof (intro ballI impI)
    fix t
    assume t: "t \<in> set (tickets db)"
       and H: "t_id t = u \<and> type_in_event db (t_ticket_type_id t) ?ev \<and> t_used t"
    have none: "\<forall>t' \<in> set (tickets db). \<not> redeemable db u ?ev t'"
    proof
      fix t' assume t': "t' \<in> set (tickets db)"
      show "\<not> redeemable db u ?ev t'"
      proof
        assume "redeemable db u ?ev t'"
        then have "t_id t' = u" "\<not> t_used t'" by (simp_all add: redeemable_def)
        with unique_id[OF uniq_ids t t'] H show False by simp
      qed
    qed
    have upd: "update_ticket_used db u ?ev ?k now = (db, 0)" by (rule update_none[OF none])
    from run[OF upd] out have resp: "resp = (case loadTicketRow db u ?ev of
                     None \<Rightarrow> VOk NOT_FOUND None | Some t \<Rightarrow> VOk ALREADY_USED (Some t))"
      and db': "db' = db" by simp_all
    have "loadTicketRow db u ?ev \<noteq> None"
      unfolding load_in_scope[OF event] using t H by blast
    then obtain row where row: "loadTicketRow db u ?ev = Some row" by auto
    from loadTicketRow_Some[OF row] obtain t1 tt e where
      j: "(t1, tt, e) \<in> set (tickets_joined db)" "t_id t1 = u" and rj: "row = joined_row db t1 tt e"
      by blast
    from j have "t1 \<in> set (tickets db)" by (simp add: in_tickets_joined)
    with unique_id[OF uniq_ids t] j(2) H have "t1 = t" by simp
    with rj H have "row_id row = u \<and> row_used row \<and> row_used_at row = t_used_at t
                     \<and> row_used_by_scanner_key_id row = t_used_by_scanner_key_id t"
      by (simp add: joined_row_def)
    with resp row db'
    show "(\<exists>row. resp = VOk ALREADY_USED (Some row) \<and> row_id row = u \<and> row_used row
                     \<and> row_used_at row = t_used_at t
                     \<and> row_used_by_scanner_key_id row = t_used_by_scanner_key_id t)
              \<and> db' = db"
      by simp
  qed
  have C: "(\<forall>t \<in> set (tickets db). t_id t = u \<longrightarrow> \<not> type_in_event db (t_ticket_type_id t) ?ev)
            \<longrightarrow> resp = VOk NOT_FOUND None \<and> db' = db"
  proof
    assume H: "\<forall>t \<in> set (tickets db). t_id t = u \<longrightarrow> \<not> type_in_event db (t_ticket_type_id t) ?ev"
    then have none: "\<forall>t' \<in> set (tickets db). \<not> redeemable db u ?ev t'"
      by (auto simp: redeemable_def)
    have upd: "update_ticket_used db u ?ev ?k now = (db, 0)" by (rule update_none[OF none])
    from run[OF upd] out have resp: "resp = (case loadTicketRow db u ?ev of
                     None \<Rightarrow> VOk NOT_FOUND None | Some t \<Rightarrow> VOk ALREADY_USED (Some t))"
      and db': "db' = db" by simp_all
    have "loadTicketRow db u ?ev = None"
      using load_in_scope[OF event, of u] H by blast
    with resp db' show "resp = VOk NOT_FOUND None \<and> db' = db" by simp
  qed
  from A B C show ?thesis by blast
qed


lemma validate_POST_unconvertible:
  assumes "bearer_token a = Some token"
      and "select_scanner_key db (digest token) now = Some key"
      and "ticketId \<noteq> []" and "uuid_in ticketId = None"
  shows "validate_POST digest uuid_in db now \<lparr>vr_authorization = Some a, vr_ticketId = Some ticketId\<rparr> =
           (VError 500 (cast_error ticketId), db,
            [SelectScannerKey (digest token),
             UpdateTicketUsed ticketId (sk_event_id key) (sk_id key)])"
  using assms by (simp add: validate_POST_def Let_def)

text \<open>
  C1, as the code has it. A validate request with the bearer of an active scanner key whose
  event exists, and any token that is not empty, over a store with unique ticket ids.
  When the store converts the token to the id \<open>u\<close>:
  if the ticket with id \<open>u\<close> has a type of the key's event and is unused, the response is
  VALID with the ticket row, now used, stamped with the time and the key, and the store
  differs only in that ticket; if it has a type of the key's event and is used, the
  response is ALREADY_USED with the row and the store is unchanged; if no ticket has id \<open>u\<close>
  or its type belongs to another event, the response is NOT_FOUND and the store is
  unchanged. The reload after the update only reads.
  When the store cannot convert the token, so that no ticket has it as its id, the response
  is not NOT_FOUND: it is the 500 error with the message of the store, sent after the
  scanner key query and the conditional update; the store is unchanged.
\<close>

theorem validate_POST_outcomes:
  assumes bearer: "bearer_token a = Some token"
      and key: "select_scanner_key db (sha256 token) now = Some key"
      and event: "list_ex (\<lambda>e. e_id e = sk_event_id key) (events db)"
      and uniq_ids: "distinct (map t_id (tickets db))"
      and tok: "ticketId \<noteq> []"
      and out: "validate_POST sha256 uuid_in db now \<lparr>vr_authorization = Some a, vr_ticketId = Some ticketId\<rparr>
                  = (resp, db', queries)"
  shows "(\<forall>u. uuid_in ticketId = Some u \<longrightarrow>
          (\<forall>t \<in> set (tickets db).
            t_id t = u \<and> type_in_event db (t_ticket_type_id t) (sk_event_id key) \<and> \<not> t_used t \<longrightarrow>
              (\<exists>row. resp = VOk VALID (Some row) \<and> row_id row = u \<and> row_used row
                     \<and> row_used_at row = Some now \<and> row_used_by_scanner_key_id row = Some (sk_id key))
              \<and> db' = db\<lparr>tickets := map (\<lambda>t'. if t_id t' = u then redeemed (sk_id key) now t' else t')
                                        (tickets db)\<rparr>)
          \<and> (\<forall>t \<in> set (tickets db).
            t_id t = u \<and> type_in_event db (t_ticket_type_id t) (sk_event_id key) \<and> t_used t \<longrightarrow>
              (\<exists>row. resp = VOk ALREADY_USED (Some row) \<and> row_id row = u \<and> row_used row
                     \<and> row_used_at row = t_used_at t
                     \<and> row_used_by_scanner_key_id row = t_used_by_scanner_key_id t)
              \<and> db' = db)
          \<and> ((\<forall>t \<in> set (tickets db). t_id t = u \<longrightarrow> \<not> type_in_event db (t_ticket_type_id t) (sk_event_id key))
               \<longrightarrow> resp = VOk NOT_FOUND None \<and> db' = db))
       \<and> (uuid_in ticketId = None \<longrightarrow>
            resp = VError 500 (cast_error ticketId) \<and> db' = db
            \<and> queries = [SelectScannerKey (sha256 token),
                         UpdateTicketUsed ticketId (sk_event_id key) (sk_id key)])"
proof (intro conjI allI impI)
  fix u assume u: "uuid_in ticketId = Some u"
  note c = validate_POST_convertible[where digest=sha256 and uuid_in=uuid_in,
             OF bearer key event uniq_ids tok u out]
  from c show "\<forall>t \<in> set (tickets db).
            t_id t = u \<and> type_in_event db (t_ticket_type_id t) (sk_event_id key) \<and> \<not> t_used t \<longrightarrow>
              (\<exists>row. resp = VOk VALID (Some row) \<and> row_id row = u \<and> row_used row
                     \<and> row_used_at row = Some now \<and> row_used_by_scanner_key_id row = Some (sk_id key))
              \<and> db' = db\<lparr>tickets := map (\<lambda>t'. if t_id t' = u then redeemed (sk_id key) now t' else t')
                                        (tickets db)\<rparr>"
    by (rule conjunct1)
  from c show "\<forall>t \<in> set (tickets db).
            t_id t = u \<and> type_in_event db (t_ticket_type_id t) (sk_event_id key) \<and> t_used t \<longrightarrow>
              (\<exists>row. resp = VOk ALREADY_USED (Some row) \<and> row_id row = u \<and> row_used row
                     \<and> row_used_at row = t_used_at t
                     \<and> row_used_by_scanner_key_id row = t_used_by_scanner_key_id t)
              \<and> db' = db"
    by (rule conjunct1[OF conjunct2])
  assume "\<forall>t \<in> set (tickets db). t_id t = u \<longrightarrow> \<not> type_in_event db (t_ticket_type_id t) (sk_event_id key)"
  with c show "resp = VOk NOT_FOUND None" "db' = db" by blast+
next
  assume n: "uuid_in ticketId = None"
  from validate_POST_unconvertible[where digest=sha256 and uuid_in=uuid_in, OF bearer key tok n] out
  show "resp = VError 500 (cast_error ticketId)" "db' = db"
       "queries = [SelectScannerKey (sha256 token),
                   UpdateTicketUsed ticketId (sk_event_id key) (sk_id key)]"
    by simp_all
qed

theorem validate_POST_outcomes_witness:
  "bearer_token ''Bearer door-1'' = Some ''door-1''
   \<and> select_scanner_key sample_store (sample_digest ''door-1'') 7 = Some (scanner_keys sample_store ! 0)
   \<and> list_ex (\<lambda>e. e_id e = sk_event_id (scanner_keys sample_store ! 0)) (events sample_store)
   \<and> distinct (map t_id (tickets sample_store))
   \<and> token_a \<noteq> [] \<and> sample_uuid_in token_a = Some token_a
   \<and> tickets sample_store ! 0 \<in> set (tickets sample_store)
   \<and> t_id (tickets sample_store ! 0) = token_a
   \<and> type_in_event sample_store (t_ticket_type_id (tickets sample_store ! 0))
         (sk_event_id (scanner_keys sample_store ! 0))
   \<and> \<not> t_used (tickets sample_store ! 0)
   \<and> (\<exists>row. fst (validate_POST sample_digest sample_uuid_in sample_store 7
                      \<lparr>vr_authorization = Some ''Bearer door-1'', vr_ticketId = Some token_a\<rparr>)
               = VOk VALID (Some row)
             \<and> row_id row = token_a \<and> row_used row \<and> row_used_at row = Some 7
             \<and> row_used_by_scanner_key_id row = Some ''key1'')
   \<and> tickets sample_store ! 1 \<in> set (tickets sample_store)
   \<and> t_id (tickets sample_store ! 1) = token_b
   \<and> type_in_event sample_store (t_ticket_type_id (tickets sample_store ! 1))
         (sk_event_id (scanner_keys sample_store ! 0))
   \<and> t_used (tickets sample_store ! 1)
   \<and> (\<exists>row. validate_POST sample_digest sample_uuid_in sample_store 7
                      \<lparr>vr_authorization = Some ''Bearer door-1'', vr_ticketId = Some token_b\<rparr>
               = (VOk ALREADY_USED (Some row), sample_store,
                  [SelectScannerKey (sample_digest ''door-1''), UpdateTicketUsed token_b ''event1'' ''key1'',
                   SelectTicketRow token_b ''event1'']))
   \<and> t_id (tickets sample_store ! 2) = token_c
   \<and> \<not> type_in_event sample_store (t_ticket_type_id (tickets sample_store ! 2))
         (sk_event_id (scanner_keys sample_store ! 0))
   \<and> validate_POST sample_digest sample_uuid_in sample_store 7
          \<lparr>vr_authorization = Some ''Bearer door-1'', vr_ticketId = Some token_c\<rparr>
       = (VOk NOT_FOUND None, sample_store,
          [SelectScannerKey (sample_digest ''door-1''), UpdateTicketUsed token_c ''event1'' ''key1'',
           SelectTicketRow token_c ''event1''])
   \<and> ''undefined'' \<noteq> [] \<and> sample_uuid_in ''undefined'' = None
   \<and> ''undefined'' \<notin> set (map t_id (tickets sample_store))
   \<and> validate_POST sample_digest sample_uuid_in sample_store 7
          \<lparr>vr_authorization = Some ''Bearer door-1'', vr_ticketId = Some ''undefined''\<rparr>
       = (VError 500 (cast_error ''undefined''), sample_store,
          [SelectScannerKey (sample_digest ''door-1''), UpdateTicketUsed ''undefined'' ''event1'' ''key1''])"
proof -
  let ?key = "scanner_keys sample_store ! 0"
  let ?out = "\<lambda>tok. validate_POST sample_digest sample_uuid_in sample_store 7
                      \<lparr>vr_authorization = Some ''Bearer door-1'', vr_ticketId = Some tok\<rparr>"
  have b: "bearer_token ''Bearer door-1'' = Some ''door-1''" by code_simp
  have k: "select_scanner_key sample_store (sample_digest ''door-1'') 7 = Some ?key" by code_simp
  have e: "list_ex (\<lambda>e. e_id e = sk_event_id ?key) (events sample_store)" by code_simp
  have d: "distinct (map t_id (tickets sample_store))" by code_simp
  have kid: "sk_id ?key = ''key1''" "sk_event_id ?key = ''event1''" by code_simp+
  have ta: "token_a \<noteq> []" "sample_uuid_in token_a = Some token_a" by code_simp+
  have tb: "token_b \<noteq> []" "sample_uuid_in token_b = Some token_b" by code_simp+
  have tc: "token_c \<noteq> []" "sample_uuid_in token_c = Some token_c" by code_simp+
  have a0: "tickets sample_store ! 0 \<in> set (tickets sample_store)"
    by (simp add: sample_store_def)
  have a1: "t_id (tickets sample_store ! 0) = token_a
            \<and> type_in_event sample_store (t_ticket_type_id (tickets sample_store ! 0)) (sk_event_id ?key)
            \<and> \<not> t_used (tickets sample_store ! 0)"
    by code_simp
  have b0: "tickets sample_store ! 1 \<in> set (tickets sample_store)"
    by (simp add: sample_store_def)
  have b1: "t_id (tickets sample_store ! 1) = token_b
            \<and> type_in_event sample_store (t_ticket_type_id (tickets sample_store ! 1)) (sk_event_id ?key)
            \<and> t_used (tickets sample_store ! 1)"
    by code_simp
  have c1: "\<forall>t \<in> set (tickets sample_store).
         t_id t = token_c \<longrightarrow> \<not> type_in_event sample_store (t_ticket_type_id t) (sk_event_id ?key)"
    by code_simp
  have pa: "?out token_a = (fst (?out token_a), fst (snd (?out token_a)), snd (snd (?out token_a)))"
    by simp
  have pb: "?out token_b = (fst (?out token_b), fst (snd (?out token_b)), snd (snd (?out token_b)))"
    by simp
  have pc: "?out token_c = (fst (?out token_c), fst (snd (?out token_c)), snd (snd (?out token_c)))"
    by simp
  have qb: "snd (snd (?out token_b)) = [SelectScannerKey (sample_digest ''door-1''),
              UpdateTicketUsed token_b ''event1'' ''key1'', SelectTicketRow token_b ''event1'']"
    by code_simp
  have qc: "snd (snd (?out token_c)) = [SelectScannerKey (sample_digest ''door-1''),
              UpdateTicketUsed token_c ''event1'' ''key1'', SelectTicketRow token_c ''event1'']"
    by code_simp
  have tu: "''undefined'' \<noteq> []" "sample_uuid_in ''undefined'' = None" by code_simp+
  have nu: "''undefined'' \<notin> set (map t_id (tickets sample_store))" by code_simp
  have pu: "?out ''undefined'' = (fst (?out ''undefined''), fst (snd (?out ''undefined'')),
                                    snd (snd (?out ''undefined'')))"
    by simp
  from validate_POST_outcomes[OF b k e d tu(1) pu] tu(2) kid
  have "fst (?out ''undefined'') = VError 500 (cast_error ''undefined'')
        \<and> fst (snd (?out ''undefined'')) = sample_store
        \<and> snd (snd (?out ''undefined'')) = [SelectScannerKey (sample_digest ''door-1''),
              UpdateTicketUsed ''undefined'' ''event1'' ''key1'']"
    by simp
  then have U: "?out ''undefined'' = (VError 500 (cast_error ''undefined''), sample_store,
          [SelectScannerKey (sample_digest ''door-1''), UpdateTicketUsed ''undefined'' ''event1'' ''key1''])"
    by (metis pu)
  from validate_POST_outcomes[OF b k e d ta(1) pa] ta(2) a0 a1 kid
  have A: "\<exists>row. fst (?out token_a) = VOk VALID (Some row)
             \<and> row_id row = token_a \<and> row_used row \<and> row_used_at row = Some 7
             \<and> row_used_by_scanner_key_id row = Some ''key1''"
    by auto
  from validate_POST_outcomes[OF b k e d tb(1) pb] tb(2) b0 b1
  have "(\<exists>row. fst (?out token_b) = VOk ALREADY_USED (Some row)) \<and> fst (snd (?out token_b)) = sample_store"
    by blast
  with qb have B: "\<exists>row. ?out token_b = (VOk ALREADY_USED (Some row), sample_store,
                  [SelectScannerKey (sample_digest ''door-1''), UpdateTicketUsed token_b ''event1'' ''key1'',
                   SelectTicketRow token_b ''event1''])"
    by (metis pb)
  from validate_POST_outcomes[OF b k e d tc(1) pc] tc(2) c1
  have "fst (?out token_c) = VOk NOT_FOUND None \<and> fst (snd (?out token_c)) = sample_store"
    by blast
  with qc have C: "?out token_c = (VOk NOT_FOUND None, sample_store,
          [SelectScannerKey (sample_digest ''door-1''), UpdateTicketUsed token_c ''event1'' ''key1'',
           SelectTicketRow token_c ''event1''])"
    by (metis pc)
  have c0: "t_id (tickets sample_store ! 2) = token_c
            \<and> \<not> type_in_event sample_store (t_ticket_type_id (tickets sample_store ! 2)) (sk_event_id ?key)"
    by code_simp
  from b k e d ta a0 a1 A b0 b1 B c0 C tu nu U show ?thesis by blast
qed

section \<open>Racing redemptions\<close>

lemma tickets_won: "tickets (won db u c) = map (\<lambda>x. if t_id x = u then redeemed (rc_scannerKeyId c) (rc_now c) x else x) (tickets db)"
  "ticket_types (won db u c) = ticket_types db" "events (won db u c) = events db"
  by (simp_all add: won_def)

lemma type_in_event_won [simp]: "type_in_event (won db u c) tid ev = type_in_event db tid ev"
  by (simp add: type_in_event_def tickets_won)








lemma pc_rank_2: "pc_rank pc = 2 \<Longrightarrow> \<exists>st. pc = Returned st"
  by (cases pc) simp_all







text \<open>
  The two statements of a call, run back to back, are the validate route after its scanner
  key query.
\<close>

lemma validate_POST_two_steps:
  assumes "bearer_token a = Some token"
      and "select_scanner_key db (digest token) now = Some key"
      and "ticketId \<noteq> []" and "uuid_in ticketId = Some u"
  shows "\<exists>st row.
           fst (validate_POST digest uuid_in db now \<lparr>vr_authorization = Some a, vr_ticketId = Some ticketId\<rparr>)
             = VOk st row
           \<and> race u [\<lparr>rc_scannerKeyId = sk_id key, rc_scannerEventId = sk_event_id key, rc_now = now\<rparr>] [0, 0] db
             = (fst (snd (validate_POST digest uuid_in db now
                           \<lparr>vr_authorization = Some a, vr_ticketId = Some ticketId\<rparr>)),
                [Returned st])"
proof -
  obtain d n where upd: "update_ticket_used db u (sk_event_id key) (sk_id key) now = (d, n)"
    by (cases "update_ticket_used db u (sk_event_id key) (sk_id key) now")
  note v = validate_POST_authorized[where digest=digest and uuid_in=uuid_in, OF assms upd]
  show ?thesis
    unfolding v race_def
    by (simp add: call_step_def upd split: option.splits)
qed


section \<open>Bulk issuance pipeline\<close>

subsection \<open>Normalized emails\<close>

lemma lower_table: "map_of (zip upper_letters lower_letters) c = Some l \<Longrightarrow> l \<in> set lower_letters"
  by (auto dest!: map_of_SomeD set_zip_rightD)

lemma upper_table: "map_of (zip upper_letters lower_letters) c = Some l \<Longrightarrow> c \<in> set upper_letters"
  by (auto dest!: map_of_SomeD set_zip_leftD)

lemma lower_not_upper: "l \<in> set lower_letters \<Longrightarrow> map_of (zip upper_letters lower_letters) l = None"
proof -
  assume "l \<in> set lower_letters"
  moreover have "list_all (\<lambda>l. l \<notin> set upper_letters) lower_letters" by code_simp
  ultimately have "l \<notin> set upper_letters" by (simp add: list_all_iff)
  then show ?thesis using upper_table[of l] by (cases "map_of (zip upper_letters lower_letters) l") auto
qed

lemma letters_not_space:
  "c \<in> set upper_letters \<Longrightarrow> \<not> is_space c" "c \<in> set lower_letters \<Longrightarrow> \<not> is_space c"
proof -
  have "list_all (\<lambda>c. \<not> is_space c) upper_letters" "list_all (\<lambda>c. \<not> is_space c) lower_letters"
    by code_simp+
  then show "c \<in> set upper_letters \<Longrightarrow> \<not> is_space c" "c \<in> set lower_letters \<Longrightarrow> \<not> is_space c"
    by (simp_all add: list_all_iff)
qed

lemma toLowerCase_char_idem: "toLowerCase_char (toLowerCase_char c) = toLowerCase_char c"
  by (auto simp: toLowerCase_char_def lower_not_upper dest: lower_table split: option.splits)

lemma is_space_toLowerCase_char: "is_space (toLowerCase_char c) = is_space c"
  by (auto simp: toLowerCase_char_def letters_not_space dest: lower_table upper_table split: option.splits)

lemma toLowerCase_idem: "toLowerCase (toLowerCase s) = toLowerCase s"
  by (simp add: toLowerCase_def toLowerCase_char_idem)

lemma dropWhile_space_lower: "dropWhile is_space (toLowerCase s) = toLowerCase (dropWhile is_space s)"
  by (simp add: toLowerCase_def dropWhile_map comp_def is_space_toLowerCase_char)

lemma trim_toLowerCase: "trim (toLowerCase s) = toLowerCase (trim s)"
proof -
  have r: "\<And>xs. rev (toLowerCase xs) = toLowerCase (rev xs)"
    by (simp add: toLowerCase_def rev_map)
  show ?thesis by (simp add: trim_def dropWhile_space_lower r)
qed

lemma dropWhile_fixed: "xs = [] \<or> \<not> P (hd xs) \<Longrightarrow> dropWhile P xs = xs"
  by (cases xs) auto

lemma dropWhile_start: "dropWhile P xs = [] \<or> \<not> P (hd (dropWhile P xs))"
  by (metis hd_dropWhile)

lemma last_dropWhile: "dropWhile P xs \<noteq> [] \<Longrightarrow> last (dropWhile P xs) = last xs"
  by (metis last_appendR takeWhile_dropWhile_id)

lemma dropWhile_rev_front:
  assumes "ys = [] \<or> \<not> P (hd ys)"
  shows "dropWhile P (rev (dropWhile P (rev ys))) = rev (dropWhile P (rev ys))"
proof (cases "dropWhile P (rev ys)")
  case Nil
  show ?thesis by (simp only: Nil rev.simps dropWhile.simps)
next
  case (Cons z zs)
  then have ne: "dropWhile P (rev ys) \<noteq> []" by simp
  then have ys: "ys \<noteq> []" by auto
  have "hd (rev (dropWhile P (rev ys))) = last (dropWhile P (rev ys))"
    using ne by (simp add: hd_rev)
  also have "\<dots> = last (rev ys)" using ne by (rule last_dropWhile)
  also have "\<dots> = hd ys" using ys by (simp add: last_rev)
  finally have "\<not> P (hd (rev (dropWhile P (rev ys))))" using assms ys by simp
  then show ?thesis by (intro dropWhile_fixed) simp
qed

lemma trim_idem: "trim (trim s) = trim s"
proof -
  have front: "dropWhile is_space (rev (dropWhile is_space (rev (dropWhile is_space s))))
             = rev (dropWhile is_space (rev (dropWhile is_space s)))"
    by (rule dropWhile_rev_front) (rule dropWhile_start)
  show ?thesis
    unfolding trim_def front rev_rev_ident dropWhile_idem ..
qed

lemma normalizeEmail_idem: "normalizeEmail (normalizeEmail s) = normalizeEmail s"
  by (simp add: normalizeEmail_def trim_toLowerCase trim_idem toLowerCase_idem)

subsection \<open>Eligible rows\<close>

lemma paidRow_email:
  "paidRow skip typesRows cols = Some r \<Longrightarrow>
     r_email r = normalizeEmail (emailRaw cols) \<and> r_email r \<noteq> []"
  by (auto simp: paidRow_def Let_def split: if_splits option.splits)

lemma set_dedupe: "set (dedupe seen rs) \<subseteq> set rs"
  by (induction seen rs rule: dedupe.induct) auto

lemma dedupe_emails: "r \<in> set (dedupe seen rs) \<Longrightarrow> r_email r \<notin> set seen"
  by (induction seen rs rule: dedupe.induct) (auto split: if_splits)

lemma distinct_dedupe: "distinct (map r_email (dedupe seen rs))"
  by (induction seen rs rule: dedupe.induct) (auto dest: dedupe_emails)

lemma eligible_email:
  assumes "r \<in> set (eligible args typesRows lines)"
  shows "normalizeEmail (r_email r) = r_email r \<and> r_email r \<noteq> []"
proof -
  let ?skip = "skipDefault @ map normalizeEmail (arg_skip args)"
  from assms set_dedupe have "r \<in> set (paidRows ?skip typesRows lines)"
    unfolding eligible_def by blast
  then obtain cols where "paidRow ?skip typesRows cols = Some r"
    by (auto simp: paidRows_def set_map_filter)
  from paidRow_email[OF this] have "r_email r = normalizeEmail (emailRaw cols)" and ne: "r_email r \<noteq> []"
    by blast+
  then have "normalizeEmail (r_email r) = r_email r" by (simp add: normalizeEmail_idem)
  with ne show ?thesis by simp
qed

lemma distinct_eligible: "distinct (map r_email (eligible args typesRows lines))"
  by (simp add: eligible_def distinct_dedupe)

subsection \<open>The issue loop\<close>

lemma readJsonlSet_append: "readJsonlSet (l @ l') = readJsonlSet l \<union> readJsonlSet l'"
  by (simp add: readJsonlSet_def)

lemma called_issue_loop: "called (snd (issue_loop remote d rows ledger)) = map r_email rows"
proof (induction rows arbitrary: ledger)
  case Nil
  then show ?case by simp
next
  case (Cons row rows)
  obtain res evs where f: "fetchJsonWithRetry (remote row) \<lparr>maxAttempts = Some 6, baseDelayMs = Some 800\<rparr> = (res, evs)"
    by (cases "fetchJsonWithRetry (remote row) \<lparr>maxAttempts = Some 6, baseDelayMs = Some 800\<rparr>")
  let ?e = "if issue_failed res then failure_entry row res else success_entry row res"
  have "called (snd (issue_loop remote d (row # rows) ledger))
          = r_email row # called (snd (issue_loop remote d rows (appendJsonl ledger ?e)))"
    using f by (simp split: prod.splits)
  with Cons.IH show ?case by simp
qed

lemma issue_loop_appends: "\<exists>new. fst (issue_loop remote d rows ledger) = ledger @ new \<and> length new = length rows"
proof (induction rows arbitrary: ledger)
  case Nil
  then show ?case by simp
next
  case (Cons row rows)
  obtain res evs where f: "fetchJsonWithRetry (remote row) \<lparr>maxAttempts = Some 6, baseDelayMs = Some 800\<rparr> = (res, evs)"
    by (cases "fetchJsonWithRetry (remote row) \<lparr>maxAttempts = Some 6, baseDelayMs = Some 800\<rparr>")
  let ?e = "if issue_failed res then failure_entry row res else success_entry row res"
  from Cons.IH[of "appendJsonl ledger ?e"] obtain new where
    n: "fst (issue_loop remote d rows (appendJsonl ledger ?e)) = appendJsonl ledger ?e @ new" "length new = length rows"
    by blast
  have "fst (issue_loop remote d (row # rows) ledger) = fst (issue_loop remote d rows (appendJsonl ledger ?e))"
    using f by (simp split: prod.splits)
  with n have "fst (issue_loop remote d (row # rows) ledger) = ledger @ (?e # new) \<and> length (?e # new) = length (row # rows)"
    by (simp add: appendJsonl_def)
  then show ?case by blast
qed

lemma issue_loop_all_ok:
  assumes "\<forall>r \<in> set rows. \<not> issue_failed (fst (fetchJsonWithRetry (remote r) issue_opts))"
  shows "fst (issue_loop remote d rows ledger)
           = ledger @ map (\<lambda>r. success_entry r (fst (fetchJsonWithRetry (remote r) issue_opts))) rows"
  using assms
proof (induction rows arbitrary: ledger)
  case Nil
  then show ?case by simp
next
  case (Cons row rows)
  obtain res evs where f: "fetchJsonWithRetry (remote row) \<lparr>maxAttempts = Some 6, baseDelayMs = Some 800\<rparr> = (res, evs)"
    by (cases "fetchJsonWithRetry (remote row) \<lparr>maxAttempts = Some 6, baseDelayMs = Some 800\<rparr>")
  with Cons.prems have ok: "\<not> issue_failed res" and res: "fst (fetchJsonWithRetry (remote row) issue_opts) = res"
    by (simp_all add: issue_opts_def)
  have "fst (issue_loop remote d (row # rows) ledger)
          = fst (issue_loop remote d rows (appendJsonl ledger (success_entry row res)))"
    using f ok by (simp split: prod.splits)
  also have "\<dots> = appendJsonl ledger (success_entry row res)
                    @ map (\<lambda>r. success_entry r (fst (fetchJsonWithRetry (remote r) issue_opts))) rows"
    using Cons.prems by (intro Cons.IH) simp
  finally show ?case by (simp add: appendJsonl_def res)
qed

lemma readJsonlSet_success:
  assumes "\<forall>r \<in> set rows. normalizeEmail (r_email r) = r_email r \<and> r_email r \<noteq> []"
  shows "readJsonlSet (map (\<lambda>r. success_entry r (f r)) rows) = r_email ` set rows"
  using assms by (force simp: readJsonlSet_def success_entry_def image_iff)

lemma pipeline_never_resends:
  "set (called (snd (pipeline_main args typesRows remote lines ledger))) \<inter> readJsonlSet ledger = {}
   \<and> distinct (called (snd (pipeline_main args typesRows remote lines ledger)))"
proof (cases "arg_dryRun args")
  case True
  then show ?thesis by (simp add: pipeline_main_def Let_def)
next
  case False
  let ?pend = "pending ledger (eligible args typesRows lines)"
  let ?limit = "if arg_max args > 0 then arg_max args else length ?pend"
  have c: "called (snd (pipeline_main args typesRows remote lines ledger)) = map r_email (take ?limit ?pend)"
    using False by (simp add: pipeline_main_def Let_def called_issue_loop)
  have "set (map r_email (take ?limit ?pend)) \<subseteq> set (map r_email ?pend)"
    by (auto dest: in_set_takeD)
  moreover have "set (map r_email ?pend) \<inter> readJsonlSet ledger = {}"
    by (auto simp: pending_def)
  moreover have "distinct (map r_email (take ?limit ?pend))"
    unfolding take_map[symmetric] pending_def
    by (intro distinct_take) (simp add: distinct_map_filter distinct_eligible)
  ultimately show ?thesis unfolding c by blast
qed

text \<open>
  C3. A run of the pipeline that is not a dry run, is not cut short by \<open>--max\<close>, and whose
  every issue call succeeds, appends one \<open>ok = true\<close> record for each pending recipient and
  calls the issue endpoint once for each, in order. After it every eligible recipient of the
  source file has an \<open>ok = true\<close> record, and a second run over the same source file and
  that ledger, whatever the remote answers, makes no call and leaves the ledger as it is.
\<close>

theorem pipeline_second_run_sends_nothing:
  assumes live: "\<not> arg_dryRun args"
      and nolimit: "arg_max args = 0 \<or> length (pending ledger0 (eligible args typesRows lines)) \<le> arg_max args"
      and ok: "\<forall>r \<in> set (pending ledger0 (eligible args typesRows lines)).
                 \<not> issue_failed (fst (fetchJsonWithRetry (remote1 r) issue_opts))"
      and run1: "pipeline_main args typesRows remote1 lines ledger0 = (ledger1, calls1)"
  shows "ledger1 = ledger0 @ map (\<lambda>r. success_entry r (fst (fetchJsonWithRetry (remote1 r) issue_opts)))
                               (pending ledger0 (eligible args typesRows lines))
       \<and> called calls1 = map r_email (pending ledger0 (eligible args typesRows lines))
       \<and> (\<forall>r \<in> set (eligible args typesRows lines). r_email r \<in> readJsonlSet ledger1)
       \<and> pipeline_main args typesRows remote2 lines ledger1 = (ledger1, [])"
proof -
  let ?elig = "eligible args typesRows lines"
  let ?pend = "pending ledger0 ?elig"
  let ?new = "map (\<lambda>r. success_entry r (fst (fetchJsonWithRetry (remote1 r) issue_opts))) ?pend"
  let ?limit = "if arg_max args > 0 then arg_max args else length ?pend"
  from nolimit have tk: "take ?limit ?pend = ?pend" by auto
  from run1 live have r1: "issue_loop remote1 (arg_delayMs args) ?pend ledger0 = (ledger1, calls1)"
    using tk by (simp add: pipeline_main_def Let_def)
  have l1: "ledger1 = ledger0 @ ?new"
    using issue_loop_all_ok[OF ok, of "arg_delayMs args" ledger0] r1 by simp
  have c1: "called calls1 = map r_email ?pend"
    using called_issue_loop[of remote1 "arg_delayMs args" ?pend ledger0] r1 by simp
  have pe: "\<forall>r \<in> set ?pend. normalizeEmail (r_email r) = r_email r \<and> r_email r \<noteq> []"
    using eligible_email by (auto simp: pending_def)
  have sent: "readJsonlSet ledger1 = readJsonlSet ledger0 \<union> r_email ` set ?pend"
    unfolding l1 readJsonlSet_append using readJsonlSet_success[OF pe] by simp
  have all: "\<forall>r \<in> set ?elig. r_email r \<in> readJsonlSet ledger1"
    unfolding sent by (auto simp: pending_def)
  then have "pending ledger1 ?elig = []"
    by (simp add: pending_def filter_empty_conv)
  then have r2: "pipeline_main args typesRows remote2 lines ledger1 = (ledger1, [])"
    using live by (simp add: pipeline_main_def Let_def)
  from l1 c1 all r2 show ?thesis by blast
qed

theorem pipeline_second_run_sends_nothing_witness:
  "\<not> arg_dryRun sample_args
   \<and> (arg_max sample_args = 0 \<or>
        length (pending [] (eligible sample_args sample_types sample_lines)) \<le> arg_max sample_args)
   \<and> map (\<lambda>r. issue_failed (fst (fetchJsonWithRetry (sample_remote r) issue_opts)))
         (pending [] (eligible sample_args sample_types sample_lines)) = [False, False]
   \<and> map r_email (pending [] (eligible sample_args sample_types sample_lines)) = [''a@b.is'', ''e@f.is'']
   \<and> called (snd (pipeline_main sample_args sample_types sample_remote sample_lines []))
         = [''a@b.is'', ''e@f.is'']
   \<and> pipeline_main sample_args sample_types failing_remote sample_lines
         (fst (pipeline_main sample_args sample_types sample_remote sample_lines []))
       = (fst (pipeline_main sample_args sample_types sample_remote sample_lines []), [])"
proof -
  let ?run1 = "pipeline_main sample_args sample_types sample_remote sample_lines []"
  have h1: "\<not> arg_dryRun sample_args" by (simp add: sample_args_def)
  have h2: "arg_max sample_args = 0 \<or>
        length (pending [] (eligible sample_args sample_types sample_lines)) \<le> arg_max sample_args"
    by (simp add: sample_args_def)
  have f: "map (\<lambda>r. issue_failed (fst (fetchJsonWithRetry (sample_remote r) issue_opts)))
         (pending [] (eligible sample_args sample_types sample_lines)) = [False, False]"
    by code_simp
  have h3: "\<forall>r \<in> set (pending [] (eligible sample_args sample_types sample_lines)).
          \<not> issue_failed (fst (fetchJsonWithRetry (sample_remote r) issue_opts))"
  proof
    fix r assume "r \<in> set (pending [] (eligible sample_args sample_types sample_lines))"
    then have "issue_failed (fst (fetchJsonWithRetry (sample_remote r) issue_opts))
                 \<in> set (map (\<lambda>r. issue_failed (fst (fetchJsonWithRetry (sample_remote r) issue_opts)))
                          (pending [] (eligible sample_args sample_types sample_lines)))"
      by simp
    then show "\<not> issue_failed (fst (fetchJsonWithRetry (sample_remote r) issue_opts))"
      unfolding f by simp
  qed
  have h4: "?run1 = (fst ?run1, snd ?run1)" by simp
  have p: "map r_email (pending [] (eligible sample_args sample_types sample_lines)) = [''a@b.is'', ''e@f.is'']"
    by code_simp
  from pipeline_second_run_sends_nothing[OF h1 h2 h3 h4, of failing_remote]
  have c: "called (snd ?run1) = map r_email (pending [] (eligible sample_args sample_types sample_lines))"
    and r2: "pipeline_main sample_args sample_types failing_remote sample_lines (fst ?run1) = (fst ?run1, [])"
    by blast+
  from c p have c': "called (snd ?run1) = [''a@b.is'', ''e@f.is'']" by (rule trans)
  from h1 h2 f p c' r2 show ?thesis by blast
qed

end
